theory Spec2Isabelle
  imports Complex_Main "HOL-Library.Word" "HOL-Library.Monad_Syntax"
begin

unbundle bit_operations_syntax

section \<open>MultiPCM (Sega 315-5560): a shallow embedding of \<open>multipcm.c\<close>\<close>

text \<open>
  The C types are modelled as follows.  \<open>UINT8\<close>/\<open>unsigned char\<close>, \<open>unsigned short\<close> and
  \<open>UINT32\<close>/\<open>unsigned int\<close> are words of 8, 16 and 32 bits, so that their arithmetic wraps.
  A C \<open>int\<close> is a HOL \<open>int\<close>, and \<open>s32\<close> is applied to the result of every signed
  operation that can leave the 32-bit range (two's-complement wrap-around).  Arrays are
  lists; a read or write outside an array, and a read through a null pointer, is the
  result \<open>None\<close>.  A function that need not return is a \<open>partial_function\<close>, where not
  returning is \<open>None\<close> as well.
\<close>

type_synonym u8 = "8 word"
type_synonym u16 = "16 word"
type_synonym u32 = "32 word"

definition s32 :: "int \<Rightarrow> int" where
  "s32 x = signed_take_bit 31 x"

definition lookup :: "'a list \<Rightarrow> int \<Rightarrow> 'a option" where
  "lookup xs i = (if 0 \<le> i \<and> i < int (length xs) then Some (xs ! nat i) else None)"

abbreviation (input) SHIFT :: nat where "SHIFT \<equiv> 12"
abbreviation (input) EG_SHIFT :: nat where "EG_SHIFT \<equiv> 16"
abbreviation (input) LFO_SHIFT :: nat where "LFO_SHIFT \<equiv> 8"

subsection \<open>Data model\<close>

record Sample_t =
  Start :: u32
  Loop :: u32
  End :: u32
  AR :: u8
  DR1 :: u8
  DR2 :: u8
  DL :: u8
  RR :: u8
  KRS :: u8
  LFOVIB :: u8
  AM :: u8

datatype STATE = ATTACK | DECAY1 | DECAY2 | RELEASE

record EG_t =
  EG_volume :: int
  EG_state :: STATE
  EG_step :: int
  EG_AR :: int
  EG_D1R :: int
  EG_D2R :: int
  EG_RR :: int
  EG_DL :: int

text \<open>\<open>table\<close> and \<open>scale\<close> point to process-wide tables that never change after start-up;
  the model holds the table itself, and the empty list for the null pointer.\<close>

record LFO_t =
  phase :: u16
  phase_step :: u32
  table :: "int list"
  scale :: "int list"

text \<open>\<open>Sample\<close> points into the chip's descriptor table: the model holds the index,
  \<open>None\<close> for the null pointer of a voice that was never keyed on.\<close>

record SLOT_t =
  Num :: u8
  Regs :: "u8 list"
  Playing :: bool
  Sample :: "nat option"
  Base :: u32
  offset :: u32
  step :: u32
  Pan :: u32
  TL :: u32
  DstTL :: u32
  TLStep :: int
  Prev :: int
  EG :: EG_t
  PLFO :: LFO_t
  ALFO :: LFO_t
  Muted :: bool

text \<open>The chip's \<open>float Rate\<close> is read by two floating-point expressions only; the
  model holds what they compute: \<open>pitch_div_Rate p\<close> is \<open>p / Rate\<close> converted to
  \<open>unsigned int\<close> (line 409), \<open>LFO_phase_step f\<close> is the \<open>phase_step\<close> that
  \<open>LFO_ComputeStep\<close> computes from \<open>LFOFreq[f]\<close> and \<open>Rate\<close> (lines 365-366).\<close>

record Rate_t =
  pitch_div_Rate :: "u32 \<Rightarrow> u32"
  LFO_phase_step :: "u32 \<Rightarrow> u32"

record MultiPCM =
  Samples :: "Sample_t list"
  Slots :: "SLOT_t list"
  CurSlot :: int
  Address :: u32
  BankR :: u32
  BankL :: u32
  Rate :: Rate_t
  ROMMask :: u32
  ROMSize :: u32
  ROM :: "u8 list"
  ARStep :: "u32 list"
  DRStep :: "u32 list"
  FNS_Table :: "u32 list"

text \<open>The process-wide tables (\<open>static\<close> arrays of the C file).\<close>

record Statics =
  LPANTABLE :: "int list"
  RPANTABLE :: "int list"
  lin2expvol :: "int list"
  TLSteps :: "int list"
  PLFO_TRI :: "int list"
  ALFO_TRI :: "int list"
  PSCALES :: "int list list"
  ASCALES :: "int list list"

subsection \<open>Envelope generator\<close>

definition EG_Update :: "Statics \<Rightarrow> SLOT_t \<Rightarrow> (SLOT_t \<times> int) option" where
  "EG_Update S slot =
    (let eg = EG slot;
         slot' =
           (case EG_state eg of
              ATTACK \<Rightarrow>
                (let v = s32 (EG_volume eg + EG_AR eg) in
                 if v \<ge> push_bit EG_SHIFT 0x3ff
                 then slot\<lparr>EG := eg\<lparr>EG_volume := push_bit EG_SHIFT 0x3ff,
                        EG_state := (if EG_D1R eg \<ge> push_bit EG_SHIFT 0x400 then DECAY2 else DECAY1)\<rparr>\<rparr>
                 else slot\<lparr>EG := eg\<lparr>EG_volume := v\<rparr>\<rparr>)
            | DECAY1 \<Rightarrow>
                (let v = s32 (EG_volume eg - EG_D1R eg);
                     v = (if v \<le> 0 then 0 else v)
                 in slot\<lparr>EG := eg\<lparr>EG_volume := v,
                      EG_state := (if drop_bit EG_SHIFT v \<le> s32 (push_bit (10 - 4) (EG_DL eg))
                                   then DECAY2 else DECAY1)\<rparr>\<rparr>)
            | DECAY2 \<Rightarrow>
                (let v = s32 (EG_volume eg - EG_D2R eg);
                     v = (if v \<le> 0 then 0 else v)
                 in slot\<lparr>EG := eg\<lparr>EG_volume := v\<rparr>\<rparr>)
            | RELEASE \<Rightarrow>
                (let v = s32 (EG_volume eg - EG_RR eg) in
                 if v \<le> 0 then slot\<lparr>EG := eg\<lparr>EG_volume := 0\<rparr>, Playing := False\<rparr>
                 else slot\<lparr>EG := eg\<lparr>EG_volume := v\<rparr>\<rparr>))
     in map_option (\<lambda>g. (slot', g))
          (lookup (lin2expvol S) (drop_bit EG_SHIFT (EG_volume (EG slot')))))"

definition Get_RATE :: "u32 list \<Rightarrow> u32 \<Rightarrow> u32 \<Rightarrow> u32 option" where
  "Get_RATE Steps rate val =
    (let r = sint (4 * val + rate) in
     if val = 0 then lookup Steps 0
     else if val = 0xf then lookup Steps 0x3f
     else lookup Steps (if r > 0x3f then 0x3f else r))"

text \<open>\<open>slot->Sample->...\<close>: the descriptor a voice points to.\<close>

definition Sample_of :: "MultiPCM \<Rightarrow> SLOT_t \<Rightarrow> Sample_t option" where
  "Sample_of c slot = (case Sample slot of None \<Rightarrow> None | Some i \<Rightarrow> lookup (Samples c) (int i))"

definition EG_octave :: "u8 \<Rightarrow> int" where
  "EG_octave r3 =
    (let octave = (uint (drop_bit 4 r3) - 1) AND 0xf
     in if octave AND 8 \<noteq> 0 then octave - 16 else octave)"

definition EG_rate :: "u8 \<Rightarrow> Sample_t \<Rightarrow> int" where
  "EG_rate r3 smp =
    (if KRS smp \<noteq> 0xf
     then s32 ((EG_octave r3 + uint (KRS smp)) * 2 + uint (drop_bit 3 r3 AND 1))
     else 0)"

definition EG_Calc :: "MultiPCM \<Rightarrow> SLOT_t \<Rightarrow> SLOT_t option" where
  "EG_Calc c slot = do {
     r3 \<leftarrow> lookup (Regs slot) 3;
     smp \<leftarrow> Sample_of c slot;
     let rate = (word_of_int (EG_rate r3 smp) :: u32);
     ar \<leftarrow> Get_RATE (ARStep c) rate (ucast (AR smp));
     d1r \<leftarrow> Get_RATE (DRStep c) rate (ucast (DR1 smp));
     d2r \<leftarrow> Get_RATE (DRStep c) rate (ucast (DR2 smp));
     rr \<leftarrow> Get_RATE (DRStep c) rate (ucast (RR smp));
     Some (slot\<lparr>EG := (EG slot)\<lparr>EG_AR := sint ar, EG_D1R := sint d1r, EG_D2R := sint d2r,
             EG_RR := sint rr, EG_DL := 0xf - uint (DL smp)\<rparr>\<rparr>)
   }"

subsection \<open>LFO\<close>

definition ALFO_TRI_entry :: "int \<Rightarrow> int" where
  "ALFO_TRI_entry i = (if i < 128 then 255 - (i * 2) else (i * 2) - 256)"

definition PLFO_TRI_entry :: "int \<Rightarrow> int" where
  "PLFO_TRI_entry i =
    (if i < 64 then i * 2
     else if i < 128 then 255 - i * 2
     else if i < 192 then 256 - i * 2
     else i * 2 - 511)"

definition PLFO_Step :: "LFO_t \<Rightarrow> (LFO_t \<times> int) option" where
  "PLFO_Step lfo = do {
     let lfo = lfo\<lparr>phase := phase lfo + ucast (phase_step lfo)\<rparr>;
     p \<leftarrow> lookup (table lfo) (uint (drop_bit LFO_SHIFT (phase lfo) AND 0xff));
     p \<leftarrow> lookup (scale lfo) (p + 128);
     Some (lfo, s32 (push_bit (SHIFT - LFO_SHIFT) p))
   }"

definition ALFO_Step :: "LFO_t \<Rightarrow> (LFO_t \<times> int) option" where
  "ALFO_Step lfo = do {
     let lfo = lfo\<lparr>phase := phase lfo + ucast (phase_step lfo)\<rparr>;
     p \<leftarrow> lookup (table lfo) (uint (drop_bit LFO_SHIFT (phase lfo) AND 0xff));
     p \<leftarrow> lookup (scale lfo) p;
     Some (lfo, s32 (push_bit (SHIFT - LFO_SHIFT) p))
   }"

definition LFO_ComputeStep ::
    "Statics \<Rightarrow> MultiPCM \<Rightarrow> LFO_t \<Rightarrow> u32 \<Rightarrow> u32 \<Rightarrow> bool \<Rightarrow> LFO_t option" where
  "LFO_ComputeStep S c lfo LFOF LFOS is_ALFO =
    (let lfo = lfo\<lparr>phase_step := LFO_phase_step (Rate c) LFOF\<rparr> in
     if is_ALFO
     then map_option (\<lambda>sc. lfo\<lparr>table := ALFO_TRI S, scale := sc\<rparr>) (lookup (ASCALES S) (uint LFOS))
     else map_option (\<lambda>sc. lfo\<lparr>table := PLFO_TRI S, scale := sc\<rparr>) (lookup (PSCALES S) (uint LFOS)))"

subsection \<open>Register writes of a voice\<close>

function WriteSlot :: "Statics \<Rightarrow> MultiPCM \<Rightarrow> SLOT_t \<Rightarrow> nat \<Rightarrow> u8 \<Rightarrow> SLOT_t option" where
  "WriteSlot S c slot reg data =
    (if length (Regs slot) \<le> reg then None
     else
       let slot = slot\<lparr>Regs := (Regs slot)[reg := data]\<rparr> in
       if reg = 0 then
         Some (slot\<lparr>Pan := ucast (drop_bit 4 data) AND 0xf\<rparr>)
       else if reg = 1 then do {
         r1 \<leftarrow> lookup (Regs slot) 1;
         smp \<leftarrow> lookup (Samples c) (uint r1);
         slot \<leftarrow> WriteSlot S c slot 6 (LFOVIB smp);
         WriteSlot S c slot 7 (AM smp)
       }
       else if reg = 2 \<or> reg = 3 then do {
         r2 \<leftarrow> lookup (Regs slot) 2;
         r3 \<leftarrow> lookup (Regs slot) 3;
         let oct = (word_of_int ((uint (drop_bit 4 r3) - 1) AND 0xf) :: u32);
         let pitch = (push_bit 6 (ucast (r3 AND 0xf)) OR ucast (drop_bit 2 r2) :: u32);
         pitch \<leftarrow> lookup (FNS_Table c) (uint pitch);
         let pitch = (if oct AND 0x8 \<noteq> 0 then drop_bit (unat (16 - oct)) pitch
                      else push_bit (unat oct) pitch);
         Some (slot\<lparr>step := pitch_div_Rate (Rate c) pitch\<rparr>)
       }
       else if reg = 4 then
         (if data AND 0x80 \<noteq> 0 then do {
            r1 \<leftarrow> lookup (Regs slot) 1;
            let slot = slot\<lparr>Sample := Some (unat r1)\<rparr>;
            let slot = slot\<lparr>Playing := True\<rparr>;
            smp \<leftarrow> Sample_of c slot;
            let slot = slot\<lparr>Base := Start smp\<rparr>;
            let slot = slot\<lparr>offset := 0\<rparr>;
            let slot = slot\<lparr>Prev := 0\<rparr>;
            let slot = slot\<lparr>TL := push_bit SHIFT (DstTL slot)\<rparr>;
            slot \<leftarrow> EG_Calc c slot;
            let slot = slot\<lparr>EG := (EG slot)\<lparr>EG_state := ATTACK\<rparr>\<rparr>;
            let slot = slot\<lparr>EG := (EG slot)\<lparr>EG_volume := 0\<rparr>\<rparr>;
            Some (if Base slot \<ge> 0x100000
                  then (if Pan slot AND 8 \<noteq> 0
                        then slot\<lparr>Base := (Base slot AND 0xfffff) OR BankL c\<rparr>
                        else slot\<lparr>Base := (Base slot AND 0xfffff) OR BankR c\<rparr>)
                  else slot)
          }
          else if Playing slot then do {
            smp \<leftarrow> Sample_of c slot;
            Some (if RR smp \<noteq> 0xf
                  then slot\<lparr>EG := (EG slot)\<lparr>EG_state := RELEASE\<rparr>\<rparr>
                  else slot\<lparr>Playing := False\<rparr>)
          }
          else Some slot)
       else if reg = 5 then
         (let slot = slot\<lparr>DstTL := ucast (drop_bit 1 data) AND 0x7f\<rparr> in
          if data AND 1 = 0 then
            (if drop_bit SHIFT (TL slot) > DstTL slot
             then map_option (\<lambda>t. slot\<lparr>TLStep := t\<rparr>) (lookup (TLSteps S) 0)
             else map_option (\<lambda>t. slot\<lparr>TLStep := t\<rparr>) (lookup (TLSteps S) 1))
          else Some (slot\<lparr>TL := push_bit SHIFT (DstTL slot)\<rparr>))
       else if reg = 6 \<or> reg = 7 then
         (if data \<noteq> 0 then do {
            r6 \<leftarrow> lookup (Regs slot) 6;
            r7 \<leftarrow> lookup (Regs slot) 7;
            plfo \<leftarrow> LFO_ComputeStep S c (PLFO slot) (ucast (drop_bit 3 r6 AND 7)) (ucast (r6 AND 7)) False;
            alfo \<leftarrow> LFO_ComputeStep S c (ALFO slot) (ucast (drop_bit 3 r6 AND 7)) (ucast (r7 AND 7)) True;
            Some (slot\<lparr>PLFO := plfo, ALFO := alfo\<rparr>)
          }
          else Some slot)
       else Some slot)"
  by pat_completeness auto
termination
  by (relation "measure (\<lambda>(S, c, slot, reg, data). if reg = 1 then 1 else 0)") auto

declare WriteSlot.simps [simp del]

subsection \<open>Rendering\<close>

text \<open>The body of the voice loop of \<open>MultiPCM_update\<close> (lines 500-536), for a voice that
  is playing and not muted, in three stages.  First the fetch of the ROM byte and the
  linear interpolation (lines 500-506): the result is \<open>vol\<close>, \<open>adr\<close>, \<open>csample\<close> and
  \<open>sample\<close>.\<close>

definition voice_sample :: "MultiPCM \<Rightarrow> SLOT_t \<Rightarrow> (u32 \<times> u32 \<times> int \<times> int) option" where
  "voice_sample c slot = do {
     let vol = drop_bit SHIFT (TL slot) OR push_bit 7 (Pan slot);
     let adr = drop_bit SHIFT (offset slot);
     b \<leftarrow> lookup (ROM c) (uint ((Base slot + adr) AND ROMMask c));
     let csample = signed_take_bit 15 (push_bit 8 (sint b));
     let fpart = uint (offset slot AND (push_bit SHIFT 1 - 1));
     let sample = drop_bit SHIFT (s32 (csample * fpart + Prev slot * (push_bit SHIFT 1 - fpart)));
     Some (vol, adr, csample, sample)
   }"

text \<open>Then vibrato (lines 503 and 508-512) and, in \<open>voice_offset\<close>, the advance of
  \<open>offset\<close> with the loop, \<open>Prev\<close>, and the ramp of \<open>TL\<close> (lines 514-525); \<open>smp\<close> is the
  descriptor \<open>slot->Sample\<close> points to.\<close>

definition voice_offset :: "Sample_t \<Rightarrow> SLOT_t \<Rightarrow> u32 \<Rightarrow> u32 \<Rightarrow> int \<Rightarrow> SLOT_t" where
  "voice_offset smp slot stp adr csample =
    (let slot = slot\<lparr>offset := offset slot + stp\<rparr>;
         slot = (if offset slot \<ge> push_bit SHIFT (End smp)
                 then slot\<lparr>offset := push_bit SHIFT (Loop smp)\<rparr> else slot);
         slot = (if adr XOR drop_bit SHIFT (offset slot) \<noteq> 0
                 then slot\<lparr>Prev := csample\<rparr> else slot)
     in if drop_bit SHIFT (TL slot) \<noteq> DstTL slot
        then slot\<lparr>TL := TL slot + word_of_int (TLStep slot)\<rparr> else slot)"

definition voice_advance :: "MultiPCM \<Rightarrow> SLOT_t \<Rightarrow> u32 \<Rightarrow> int \<Rightarrow> SLOT_t option" where
  "voice_advance c slot adr csample = do {
     let stp = step slot;
     r6 \<leftarrow> lookup (Regs slot) 6;
     (slot, stp) \<leftarrow>
       (if r6 AND 7 \<noteq> 0
        then do {
          (lfo, p) \<leftarrow> PLFO_Step (PLFO slot);
          Some (slot\<lparr>PLFO := lfo\<rparr>, drop_bit SHIFT (stp * word_of_int p))
        }
        else Some (slot, stp));
     smp \<leftarrow> Sample_of c slot;
     Some (voice_offset smp slot stp adr csample)
   }"

text \<open>Then tremolo, the envelope, and the pan table (lines 527-536); \<open>smpl\<close> and \<open>smpr\<close>
  are the two accumulators.\<close>

definition voice_output ::
    "Statics \<Rightarrow> SLOT_t \<Rightarrow> u32 \<Rightarrow> int \<Rightarrow> int \<Rightarrow> int \<Rightarrow> (SLOT_t \<times> int \<times> int) option" where
  "voice_output S slot vol sample smpl smpr = do {
     r7 \<leftarrow> lookup (Regs slot) 7;
     (slot, sample) \<leftarrow>
       (if r7 AND 7 \<noteq> 0
        then do {
          (lfo, a) \<leftarrow> ALFO_Step (ALFO slot);
          Some (slot\<lparr>ALFO := lfo\<rparr>, drop_bit SHIFT (s32 (sample * a)))
        }
        else Some (slot, sample));
     (slot, g) \<leftarrow> EG_Update S slot;
     let sample = drop_bit 10 (s32 (sample * g));
     lp \<leftarrow> lookup (LPANTABLE S) (uint vol);
     rp \<leftarrow> lookup (RPANTABLE S) (uint vol);
     Some (slot, s32 (smpl + drop_bit SHIFT (s32 (lp * sample))),
                 s32 (smpr + drop_bit SHIFT (s32 (rp * sample))))
   }"

definition voice_render ::
    "Statics \<Rightarrow> MultiPCM \<Rightarrow> SLOT_t \<Rightarrow> int \<Rightarrow> int \<Rightarrow> (SLOT_t \<times> int \<times> int) option" where
  "voice_render S c slot smpl smpr = do {
     (vol, adr, csample, sample) \<leftarrow> voice_sample c slot;
     slot \<leftarrow> voice_advance c slot adr csample;
     voice_output S slot vol sample smpl smpr
   }"

text \<open>The loop over the voices, for one output sample.\<close>

fun render_slots ::
    "Statics \<Rightarrow> MultiPCM \<Rightarrow> SLOT_t list \<Rightarrow> int \<Rightarrow> int \<Rightarrow> (SLOT_t list \<times> int \<times> int) option" where
  "render_slots S c [] smpl smpr = Some ([], smpl, smpr)"
| "render_slots S c (slot # rest) smpl smpr =
    (if Playing slot \<and> \<not> Muted slot
     then do {
       (slot', smpl', smpr') \<leftarrow> voice_render S c slot smpl smpr;
       (rest', l, r) \<leftarrow> render_slots S c rest smpl' smpr';
       Some (slot' # rest', l, r)
     }
     else do {
       (rest', l, r) \<leftarrow> render_slots S c rest smpl smpr;
       Some (slot # rest', l, r)
     })"

text \<open>The loop over the output samples: \<open>i\<close> is the loop counter, the second number what
  is left of \<open>samples\<close>.  The two output buffers are lists; a store past the end of a
  buffer is \<open>None\<close>.\<close>

fun update_loop ::
    "Statics \<Rightarrow> nat \<Rightarrow> nat \<Rightarrow> MultiPCM \<Rightarrow> int list \<Rightarrow> int list
      \<Rightarrow> (MultiPCM \<times> int list \<times> int list) option" where
  "update_loop S i 0 c outl outr = Some (c, outl, outr)"
| "update_loop S i (Suc n) c outl outr = do {
     (slots, smpl, smpr) \<leftarrow> render_slots S c (Slots c) 0 0;
     if i < length outl \<and> i < length outr
     then update_loop S (Suc i) n (c\<lparr>Slots := slots\<rparr>) (outl[i := smpl]) (outr[i := smpr])
     else None
   }"

definition MultiPCM_update ::
    "Statics \<Rightarrow> MultiPCM \<Rightarrow> u32 \<Rightarrow> int list \<Rightarrow> int list
      \<Rightarrow> (MultiPCM \<times> int list \<times> int list) option" where
  "MultiPCM_update S c samples outl outr = update_loop S 0 (unat samples) c outl outr"

subsection \<open>Start-up\<close>

text \<open>The pan and volume table (lines 569-619).  Here \<open>float\<close> and \<open>double\<close> are read as
  exact reals: \<open>pow(10.0, x)\<close> is \<open>10 powr x\<close>, and \<open>FIX\<close> truncates to \<open>UINT32\<close> before
  the store into the \<open>signed int\<close> table.\<close>

definition FIX :: "real \<Rightarrow> int" where
  "FIX v = sint (word_of_int \<lfloor>real_of_int (push_bit SHIFT 1) * v\<rfloor> :: u32)"

definition pan_entry :: "nat \<Rightarrow> int \<times> int" where
  "pan_entry i =
    (let iTL = (of_nat i :: u8) AND 0x7f;
         iPAN = (of_nat (drop_bit 7 i) :: u8) AND 0xf;
         SegaDB = real (unat iTL) * (- 24) / real 0x40;
         TL = 10 powr (SegaDB / 20);
         (LPAN, RPAN) =
           (if iPAN = 0x8 then (0, 0)
            else if iPAN = 0x0 then (1, 1)
            else if iPAN AND 0x8 \<noteq> 0 then
              (let iPAN = 0x10 - iPAN;
                   SegaDB = real (unat iPAN) * (- 12) / real 0x4;
                   RPAN = 10 powr (SegaDB / 20)
               in (1, if iPAN AND 0x7 = 7 then 0 else RPAN))
            else
              (let SegaDB = real (unat iPAN) * (- 12) / real 0x4;
                   LPAN = 10 powr (SegaDB / 20)
               in (if iPAN AND 0x7 = 7 then 0 else LPAN, 1)));
         TL = TL / 4
     in (FIX (LPAN * TL), FIX (RPAN * TL)))"

text \<open>What the other floating-point loops of \<open>device_start_multipcm\<close> and \<open>LFO_Init\<close>
  compute is a parameter: one function of the index for each table, and the two
  expressions that read \<open>Rate\<close>.\<close>

record Float_t =
  fl_Rate :: Rate_t
  fl_FNS_Table :: "nat \<Rightarrow> u32"
  fl_ARStep :: "nat \<Rightarrow> u32"
  fl_DRStep :: "nat \<Rightarrow> u32"
  fl_TLSteps :: "nat \<Rightarrow> int"
  fl_lin2expvol :: "nat \<Rightarrow> int"
  fl_PSCALES :: "nat \<Rightarrow> nat \<Rightarrow> int"
  fl_ASCALES :: "nat \<Rightarrow> nat \<Rightarrow> int"

definition LFO_Init :: "Float_t \<Rightarrow> Statics \<Rightarrow> Statics" where
  "LFO_Init fl S =
     S\<lparr>ALFO_TRI := map (\<lambda>i. ALFO_TRI_entry (int i)) [0..<256],
       PLFO_TRI := map (\<lambda>i. PLFO_TRI_entry (int i)) [0..<256],
       PSCALES := map (\<lambda>s. map (fl_PSCALES fl s) [0..<256]) [0..<8],
       ASCALES := map (\<lambda>s. map (fl_ASCALES fl s) [0..<256]) [0..<8]\<rparr>"

text \<open>A voice and a descriptor as \<open>calloc\<close> leaves them.\<close>

definition zero_Sample :: Sample_t where
  "zero_Sample = \<lparr>Start = 0, Loop = 0, End = 0, AR = 0, DR1 = 0, DR2 = 0, DL = 0, RR = 0,
     KRS = 0, LFOVIB = 0, AM = 0\<rparr>"

definition zero_LFO :: LFO_t where
  "zero_LFO = \<lparr>phase = 0, phase_step = 0, table = [], scale = []\<rparr>"

definition zero_EG :: EG_t where
  "zero_EG = \<lparr>EG_volume = 0, EG_state = ATTACK, EG_step = 0, EG_AR = 0, EG_D1R = 0,
     EG_D2R = 0, EG_RR = 0, EG_DL = 0\<rparr>"

definition zero_SLOT :: SLOT_t where
  "zero_SLOT = \<lparr>Num = 0, Regs = [0, 0, 0, 0, 0, 0, 0, 0], Playing = False, Sample = None, Base = 0,
     offset = 0, step = 0, Pan = 0, TL = 0, DstTL = 0, TLStep = 0, Prev = 0, EG = zero_EG,
     PLFO = zero_LFO, ALFO = zero_LFO, Muted = False\<rparr>"

definition multipcm_set_bank :: "MultiPCM \<Rightarrow> u32 \<Rightarrow> u32 \<Rightarrow> MultiPCM" where
  "multipcm_set_bank c leftoffs rightoffs = c\<lparr>BankL := leftoffs, BankR := rightoffs\<rparr>"

definition multipcm_bank_write :: "MultiPCM \<Rightarrow> u8 \<Rightarrow> u16 \<Rightarrow> MultiPCM" where
  "multipcm_bank_write c offs data =
    (let c = (if offs AND 0x01 \<noteq> 0 then c\<lparr>BankL := push_bit 16 (ucast data)\<rparr> else c)
     in if offs AND 0x02 \<noteq> 0 then c\<lparr>BankR := push_bit 16 (ucast data)\<rparr> else c)"

definition multipcm_set_mute_mask :: "MultiPCM \<Rightarrow> u32 \<Rightarrow> MultiPCM" where
  "multipcm_set_mute_mask c MuteMask =
     c\<lparr>Slots := map (\<lambda>(CurChn, slot). slot\<lparr>Muted := (drop_bit CurChn MuteMask AND 0x01 \<noteq> 0)\<rparr>)
                   (enumerate 0 (Slots c))\<rparr>"

text \<open>\<open>device_start_multipcm\<close>, on the path where \<open>calloc\<close> succeeds: the process-wide
  tables and the new chip.\<close>

definition device_start_multipcm :: "Float_t \<Rightarrow> Statics \<times> MultiPCM" where
  "device_start_multipcm fl =
    (let S = \<lparr>LPANTABLE = map (\<lambda>i. fst (pan_entry i)) [0..<0x800],
              RPANTABLE = map (\<lambda>i. snd (pan_entry i)) [0..<0x800],
              lin2expvol = map (fl_lin2expvol fl) [0..<0x400],
              TLSteps = map (fl_TLSteps fl) [0..<2],
              PLFO_TRI = [], ALFO_TRI = [], PSCALES = [], ASCALES = []\<rparr>;
         c = \<lparr>Samples = replicate 0x200 zero_Sample,
              Slots = replicate 28 zero_SLOT,
              CurSlot = 0, Address = 0, BankR = 0, BankL = 0,
              Rate = fl_Rate fl,
              ROMMask = 0x00, ROMSize = 0x00, ROM = [],
              ARStep = (map (fl_ARStep fl) [0..<0x40])
                         [0 := 0, 1 := 0, 2 := 0, 3 := 0, 0x3f := push_bit EG_SHIFT 0x400],
              DRStep = (map (fl_DRStep fl) [0..<0x40])[0 := 0, 1 := 0, 2 := 0, 3 := 0],
              FNS_Table = map (fl_FNS_Table fl) [0..<0x400]\<rparr>
     in (LFO_Init fl S, multipcm_set_mute_mask (multipcm_set_bank c 0x00 0x00) 0x00))"

definition device_reset_multipcm :: "MultiPCM \<Rightarrow> MultiPCM" where
  "device_reset_multipcm c =
     c\<lparr>Slots := map (\<lambda>(i, slot). slot\<lparr>Num := of_nat i, Playing := False\<rparr>)
                   (enumerate 0 (Slots c))\<rparr>"

subsection \<open>Register ports\<close>

definition val2chan :: "int list" where
  "val2chan =
    [0, 1, 2, 3, 4, 5, 6, - 1,
     7, 8, 9, 10, 11, 12, 13, - 1,
     14, 15, 16, 17, 18, 19, 20, - 1,
     21, 22, 23, 24, 25, 26, 27, - 1]"

text \<open>\<open>WriteSlot(ptChip, ptChip->Slots + ptChip->CurSlot, ptChip->Address, data)\<close>.\<close>

definition write_CurSlot :: "Statics \<Rightarrow> MultiPCM \<Rightarrow> u8 \<Rightarrow> MultiPCM option" where
  "write_CurSlot S c data = do {
     slot \<leftarrow> lookup (Slots c) (CurSlot c);
     slot \<leftarrow> WriteSlot S c slot (unat (Address c)) data;
     Some (c\<lparr>Slots := (Slots c)[nat (CurSlot c) := slot]\<rparr>)
   }"

definition multipcm_w :: "Statics \<Rightarrow> MultiPCM \<Rightarrow> u32 \<Rightarrow> u8 \<Rightarrow> MultiPCM option" where
  "multipcm_w S c offs data =
    (if offs = 0 then
       (if CurSlot c = - 1 then Some c else write_CurSlot S c data)
     else if offs = 1 then
       map_option (\<lambda>v. c\<lparr>CurSlot := v\<rparr>) (lookup val2chan (uint (data AND 0x1f)))
     else if offs = 2 then
       Some (c\<lparr>Address := (if data > 7 then 7 else ucast data)\<rparr>)
     else Some c)"

definition multipcm_w_quick :: "Statics \<Rightarrow> MultiPCM \<Rightarrow> u8 \<Rightarrow> u8 \<Rightarrow> MultiPCM option" where
  "multipcm_w_quick S c offs data = do {
     v \<leftarrow> lookup val2chan (uint (drop_bit 3 offs AND 0x1F));
     let c = c\<lparr>CurSlot := v\<rparr>;
     let c = c\<lparr>Address := ucast (offs AND 0x07)\<rparr>;
     if CurSlot c = - 1 then Some c else write_CurSlot S c data
   }"

definition multipcm_r :: "MultiPCM \<Rightarrow> u32 \<Rightarrow> u8" where
  "multipcm_r c offs = 0"

subsection \<open>Sample ROM\<close>

text \<open>The loop of \<open>multipcm_alloc_rom\<close> that doubles \<open>ROMMask\<close> (line 753).\<close>

partial_function (option) ROMMask_loop :: "u32 \<Rightarrow> u32 \<Rightarrow> u32 option" where
  "ROMMask_loop m memsize =
     (if m < memsize then ROMMask_loop (push_bit 1 m) memsize else Some m)"

text \<open>\<open>realloc\<close> is taken to succeed; the \<open>INT8\<close> bytes of the ROM are kept as \<open>u8\<close> and read
  through \<open>sint\<close>.\<close>

definition multipcm_alloc_rom :: "MultiPCM \<Rightarrow> u32 \<Rightarrow> MultiPCM option" where
  "multipcm_alloc_rom c memsize =
    (if ROMSize c = memsize then Some c
     else do {
       let c = c\<lparr>ROM := replicate (unat memsize) 0xFF, ROMSize := memsize\<rparr>;
       m \<leftarrow> ROMMask_loop 1 memsize;
       Some (c\<lparr>ROMMask := m - 1\<rparr>)
     })"

text \<open>One descriptor, read from the twelve bytes at \<open>ROM + CurSmpl * 12\<close> (lines 782-792).\<close>

definition parse_Sample :: "u8 list \<Rightarrow> nat \<Rightarrow> Sample_t option" where
  "parse_Sample rom CurSmpl = do {
     let ptSample = (\<lambda>k. lookup rom (int (CurSmpl * 12) + k));
     b0 \<leftarrow> ptSample 0;
     b1 \<leftarrow> ptSample 1;
     b2 \<leftarrow> ptSample 2;
     b3 \<leftarrow> ptSample 3;
     b4 \<leftarrow> ptSample 4;
     b5 \<leftarrow> ptSample 5;
     b6 \<leftarrow> ptSample 6;
     b7 \<leftarrow> ptSample 7;
     b8 \<leftarrow> ptSample 8;
     b9 \<leftarrow> ptSample 9;
     b10 \<leftarrow> ptSample 10;
     b11 \<leftarrow> ptSample 11;
     Some \<lparr>Start = push_bit 16 (ucast b0) OR push_bit 8 (ucast b1) OR push_bit 0 (ucast b2),
           Loop = push_bit 8 (ucast b3) OR push_bit 0 (ucast b4),
           End = 0xffff - (push_bit 8 (ucast b5) OR push_bit 0 (ucast b6)),
           AR = drop_bit 4 b8 AND 0xf,
           DR1 = b8 AND 0xf,
           DR2 = b9 AND 0xf,
           DL = drop_bit 4 b9 AND 0xf,
           RR = b10 AND 0xf,
           KRS = drop_bit 4 b10 AND 0xf,
           LFOVIB = b7,
           AM = b11\<rparr>
   }"

text \<open>The loop over the 512 descriptors (line 777): \<open>CurSmpl\<close> is the loop counter, the
  second number what is left to do.\<close>

fun rebuild_Samples :: "u8 list \<Rightarrow> nat \<Rightarrow> nat \<Rightarrow> Sample_t list \<Rightarrow> Sample_t list option" where
  "rebuild_Samples rom CurSmpl 0 smps = Some smps"
| "rebuild_Samples rom CurSmpl (Suc n) smps = do {
     TempSmpl \<leftarrow> parse_Sample rom CurSmpl;
     if CurSmpl < length smps
     then rebuild_Samples rom (Suc CurSmpl) n (smps[CurSmpl := TempSmpl])
     else None
   }"

text \<open>\<open>memcpy(ROM + offset, data, length)\<close>: \<open>None\<close> when it reads past the end of \<open>data\<close> or
  writes past the end of the ROM buffer.\<close>

definition memcpy_ROM :: "u8 list \<Rightarrow> nat \<Rightarrow> u8 list \<Rightarrow> nat \<Rightarrow> u8 list option" where
  "memcpy_ROM rom offs data len =
    (if len \<le> length data \<and> offs + len \<le> length rom
     then Some (take offs rom @ take len data @ drop (offs + len) rom)
     else None)"

definition multipcm_write_rom :: "MultiPCM \<Rightarrow> u32 \<Rightarrow> u32 \<Rightarrow> u8 list \<Rightarrow> MultiPCM option" where
  "multipcm_write_rom c offs len data =
    (if offs > ROMSize c then Some c
     else do {
       let len = (if offs + len > ROMSize c then ROMSize c - offs else len);
       rom \<leftarrow> memcpy_ROM (ROM c) (unat offs) data (unat len);
       let c = c\<lparr>ROM := rom\<rparr>;
       if offs < 0x200 * 12
       then map_option (\<lambda>smps. c\<lparr>Samples := smps\<rparr>) (rebuild_Samples (ROM c) 0 512 (Samples c))
       else Some c
     })"

subsection \<open>Fixtures\<close>

text \<open>Concrete values for the floating-point parameters, and a few concrete states, on
  which the theorems below are instantiated.\<close>

definition test_Float :: Float_t where
  "test_Float =
     \<lparr>fl_Rate = \<lparr>pitch_div_Rate = (\<lambda>p. p), LFO_phase_step = (\<lambda>f. 3)\<rparr>,
      fl_FNS_Table = (\<lambda>i. 0x1000),
      fl_ARStep = (\<lambda>i. 0x1000),
      fl_DRStep = (\<lambda>i. 0x100),
      fl_TLSteps = (\<lambda>i. 0),
      fl_lin2expvol = (\<lambda>i. int i),
      fl_PSCALES = (\<lambda>s i. 256 + 64 * int s),
      fl_ASCALES = (\<lambda>s i. 256 - 32 * int s)\<rparr>"

definition test_Statics :: Statics where
  "test_Statics = fst (device_start_multipcm test_Float)"

definition test_chip :: MultiPCM where
  "test_chip = snd (device_start_multipcm test_Float)"

definition attack_SLOT :: SLOT_t where
  "attack_SLOT = zero_SLOT\<lparr>Playing := True, Sample := Some 0,
     EG := zero_EG\<lparr>EG_AR := 0x1000, EG_D1R := 0x100, EG_D2R := 0x100, EG_RR := 0x100\<rparr>\<rparr>"

text \<open>The chip after \<open>alloc_rom(6144)\<close>, and after \<open>alloc_rom(100)\<close>, on a new chip.\<close>

definition rom_chip :: MultiPCM where
  "rom_chip = test_chip\<lparr>ROM := replicate 6144 0xFF, ROMSize := 0x1800, ROMMask := 0x1FFF\<rparr>"

definition small_chip :: MultiPCM where
  "small_chip = test_chip\<lparr>ROM := replicate 100 0xFF, ROMSize := 100, ROMMask := 0x7F\<rparr>"

definition byte_order_hdr :: "u8 list" where
  "byte_order_hdr = [0x01, 0x02, 0x03, 0x04, 0x05, 0x00, 0x10, 0x00, 0x00, 0x00, 0x00, 0x00]"

text \<open>Voice 0 of \<open>rom_chip\<close> after a key-on write (\<open>keyed_SLOT\<close>), and after a reset that
  follows it (\<open>stopped_SLOT\<close>).\<close>

definition keyed_SLOT :: SLOT_t where
  "keyed_SLOT = zero_SLOT\<lparr>Regs := [0, 0, 0, 0, 0x80, 0, 0, 0], Playing := True, Sample := Some 0,
      EG := zero_EG\<lparr>EG_DL := 0xf\<rparr>\<rparr>"

definition stopped_SLOT :: SLOT_t where
  "stopped_SLOT = keyed_SLOT\<lparr>Playing := False\<rparr>"

text \<open>A descriptor with \<open>AR = 1\<close> and \<open>KRS = 0\<close>, and the writes that bring voice 0 to the
  point of a key-on with octave \<open>-8\<close>: \<open>alloc_rom\<close>, \<open>write_rom\<close> of the descriptor, and
  \<open>0x90\<close> to register 3 through the ports.\<close>

definition krs_hdr :: "u8 list" where
  "krs_hdr = [0x00, 0x00, 0x00, 0x00, 0x00, 0x00, 0x00, 0x00, 0x10, 0x00, 0x00, 0x00]"

definition krs_Sample :: Sample_t where
  "krs_Sample = \<lparr>Start = 0, Loop = 0, End = 0xffff, AR = 1, DR1 = 0, DR2 = 0, DL = 0,
           RR = 0, KRS = 0, LFOVIB = 0, AM = 0\<rparr>"

definition octave_trace :: "MultiPCM option" where
  "octave_trace = do {
     c \<leftarrow> multipcm_alloc_rom test_chip 0x1800;
     c \<leftarrow> multipcm_write_rom c 0 12 krs_hdr;
     c \<leftarrow> multipcm_w test_Statics c 2 3;
     c \<leftarrow> multipcm_w test_Statics c 0 0x90;
     multipcm_w test_Statics c 2 4
   }"

definition octave_SLOT :: SLOT_t where
  "octave_SLOT = zero_SLOT\<lparr>Regs := [0, 0, 0, 0x90, 0, 0, 0, 0], step := 0x10\<rparr>"

text \<open>\<open>keyed_SLOT\<close> after \<open>0x08\<close> is written to register 6: LFO frequency 1, both depths 0.\<close>

definition lfo_SLOT :: SLOT_t where
  "lfo_SLOT = keyed_SLOT\<lparr>Regs := [0, 0, 0, 0, 0x80, 0, 0x08, 0],
     PLFO := \<lparr>phase = 0, phase_step = 3, table = PLFO_TRI test_Statics,
              scale = PSCALES test_Statics ! 0\<rparr>,
     ALFO := \<lparr>phase = 0, phase_step = 3, table = ALFO_TRI test_Statics,
              scale = ASCALES test_Statics ! 0\<rparr>\<rparr>"

text \<open>A descriptor with vibrato and tremolo of depth 1 (\<open>LFOVIB = 0x09\<close>, \<open>AM = 0x01\<close>),
  \<open>AR = 0xf\<close> and its sample data at \<open>0x10\<close>; the descriptor that twelve bytes \<open>0xFF\<close> give;
  and the writes that key voice 0 on with the first: \<open>alloc_rom\<close>, \<open>write_rom\<close> of the
  descriptor, then through the ports \<open>0\<close> to register 1 (which copies \<open>LFOVIB\<close> and \<open>AM\<close> to
  registers 6 and 7), \<open>0x10\<close> to register 3 (octave 0) and \<open>0x80\<close> to register 4.\<close>

definition vib_hdr :: "u8 list" where
  "vib_hdr = [0x00, 0x00, 0x10, 0x00, 0x00, 0x00, 0x00, 0x09, 0xF0, 0x00, 0x00, 0x01]"

definition vib_Sample :: Sample_t where
  "vib_Sample = \<lparr>Start = 0x10, Loop = 0, End = 0xffff, AR = 0xf, DR1 = 0, DR2 = 0, DL = 0,
           RR = 0, KRS = 0, LFOVIB = 0x09, AM = 0x01\<rparr>"

definition ff_Sample :: Sample_t where
  "ff_Sample = \<lparr>Start = 0xffffff, Loop = 0xffff, End = 0, AR = 0xf, DR1 = 0xf, DR2 = 0xf,
           DL = 0xf, RR = 0xf, KRS = 0xf, LFOVIB = 0xff, AM = 0xff\<rparr>"

definition vib_trace :: "MultiPCM option" where
  "vib_trace = do {
     c \<leftarrow> multipcm_alloc_rom test_chip 0x1800;
     c \<leftarrow> multipcm_write_rom c 0 12 vib_hdr;
     c \<leftarrow> multipcm_w test_Statics c 2 1;
     c \<leftarrow> multipcm_w test_Statics c 0 0;
     c \<leftarrow> multipcm_w test_Statics c 2 3;
     c \<leftarrow> multipcm_w test_Statics c 0 0x10;
     c \<leftarrow> multipcm_w test_Statics c 2 4;
     multipcm_w test_Statics c 0 0x80
   }"

text \<open>The chip after these writes (\<open>vib_chip\<close>), and its voice 0 then (\<open>vib_keyed_SLOT\<close>),
  after one rendered sample (\<open>vib_SLOT\<close>) and after two (\<open>vib_next_SLOT\<close>).\<close>

definition vib_keyed_SLOT :: SLOT_t where
  "vib_keyed_SLOT = zero_SLOT\<lparr>Regs := [0, 0, 0, 0x10, 0x80, 0, 0x09, 0x01], Playing := True,
     Sample := Some 0, Base := 0x10, step := 0x1000,
     EG := zero_EG\<lparr>EG_AR := 0x4000000, EG_DL := 0xf\<rparr>,
     PLFO := \<lparr>phase = 0, phase_step = 3, table = PLFO_TRI test_Statics,
              scale = PSCALES test_Statics ! 1\<rparr>,
     ALFO := \<lparr>phase = 0, phase_step = 3, table = ALFO_TRI test_Statics,
              scale = ASCALES test_Statics ! 1\<rparr>\<rparr>"

definition vib_chip :: MultiPCM where
  "vib_chip = rom_chip\<lparr>ROM := vib_hdr @ replicate 6132 0xFF,
     Samples := vib_Sample # replicate 511 ff_Sample, Address := 4,
     Slots := (Slots test_chip)[0 := vib_keyed_SLOT]\<rparr>"

definition vib_SLOT :: SLOT_t where
  "vib_SLOT = vib_keyed_SLOT\<lparr>offset := 0x1400, Prev := - 256,
     EG := (EG vib_keyed_SLOT)\<lparr>EG_volume := 0x3ff0000, EG_state := DECAY1\<rparr>,
     PLFO := (PLFO vib_keyed_SLOT)\<lparr>phase := 3\<rparr>, ALFO := (ALFO vib_keyed_SLOT)\<lparr>phase := 3\<rparr>\<rparr>"

definition vib_next_SLOT :: SLOT_t where
  "vib_next_SLOT = vib_SLOT\<lparr>offset := 0x2800,
     PLFO := (PLFO vib_SLOT)\<lparr>phase := 6\<rparr>, ALFO := (ALFO vib_SLOT)\<lparr>phase := 6\<rparr>\<rparr>"

section \<open>Verification\<close>

lemma s32_id: "- (2 ^ 31) \<le> x \<Longrightarrow> x < 2 ^ 31 \<Longrightarrow> s32 x = x"
  unfolding s32_def by (rule signed_take_bit_int_eq_self) simp_all

lemma lookup_Some: "0 \<le> i \<Longrightarrow> i < int (length xs) \<Longrightarrow> lookup xs i = Some (xs ! nat i)"
  by (simp add: lookup_def)

lemma test_Statics_lin2expvol: "length (lin2expvol test_Statics) = 0x400"
  by (simp add: test_Statics_def device_start_multipcm_def LFO_Init_def Let_def)

subsection \<open>The envelope generator\<close>

text \<open>
  C1.  One step of \<open>EG_Update\<close>, on a voice whose volume is within \<open>0 .. 0x3ff << EG_SHIFT\<close>
  and whose four step rates are non-negative 32-bit values as \<open>EG_Calc\<close> takes them from
  the step tables (the largest entry of which is \<open>ARStep[0x3f] = 0x400 << EG_SHIFT\<close>):
  the step returns; in \<open>ATTACK\<close> the volume does not decrease, in the other three states
  (\<open>DECAY1\<close>, \<open>DECAY2\<close>, \<open>RELEASE\<close>) it does not increase, and afterwards it is within \<open>0 .. 0x3ff << EG_SHIFT\<close> again.
\<close>

theorem EG_Update_monotone_bounded:
  assumes L: "length (lin2expvol S) = 0x400"
    and v0: "0 \<le> EG_volume (EG slot)" and v1: "EG_volume (EG slot) \<le> push_bit EG_SHIFT 0x3ff"
    and a0: "0 \<le> EG_AR (EG slot)" and a1: "EG_AR (EG slot) \<le> push_bit EG_SHIFT 0x400"
    and d1: "0 \<le> EG_D1R (EG slot)" "EG_D1R (EG slot) < 2 ^ 31"
    and d2: "0 \<le> EG_D2R (EG slot)" "EG_D2R (EG slot) < 2 ^ 31"
    and rr: "0 \<le> EG_RR (EG slot)" "EG_RR (EG slot) < 2 ^ 31"
  shows "\<exists>slot' g. EG_Update S slot = Some (slot', g) \<and>
      (if EG_state (EG slot) = ATTACK
       then EG_volume (EG slot) \<le> EG_volume (EG slot')
       else EG_volume (EG slot') \<le> EG_volume (EG slot)) \<and>
      0 \<le> EG_volume (EG slot') \<and> EG_volume (EG slot') \<le> push_bit EG_SHIFT 0x3ff"
proof -
  have wa: "s32 (EG_volume (EG slot) + EG_AR (EG slot)) = EG_volume (EG slot) + EG_AR (EG slot)"
    using v0 v1 a0 a1 by (intro s32_id) (simp_all add: push_bit_eq_mult)
  have w1: "s32 (EG_volume (EG slot) - EG_D1R (EG slot)) = EG_volume (EG slot) - EG_D1R (EG slot)"
    using v0 v1 d1 by (intro s32_id) (simp_all add: push_bit_eq_mult)
  have w2: "s32 (EG_volume (EG slot) - EG_D2R (EG slot)) = EG_volume (EG slot) - EG_D2R (EG slot)"
    using v0 v1 d2 by (intro s32_id) (simp_all add: push_bit_eq_mult)
  have w3: "s32 (EG_volume (EG slot) - EG_RR (EG slot)) = EG_volume (EG slot) - EG_RR (EG slot)"
    using v0 v1 rr by (intro s32_id) (simp_all add: push_bit_eq_mult)
  have idx: "\<And>v::int. 0 \<le> v \<Longrightarrow> v \<le> push_bit EG_SHIFT 0x3ff \<Longrightarrow>
      lookup (lin2expvol S) (drop_bit EG_SHIFT v) = Some (lin2expvol S ! nat (drop_bit EG_SHIFT v))"
    using L by (intro lookup_Some) (simp_all add: push_bit_eq_mult drop_bit_eq_div)
  show ?thesis
  proof (cases "EG_state (EG slot)")
    case ATTACK
    then show ?thesis using v0 v1 a0 a1 idx
      by (auto simp: EG_Update_def Let_def wa)
  next
    case DECAY1
    then show ?thesis using v0 v1 d1 idx
      by (auto simp: EG_Update_def Let_def w1)
  next
    case DECAY2
    then show ?thesis using v0 v1 d2 idx
      by (auto simp: EG_Update_def Let_def w2)
  next
    case RELEASE
    then show ?thesis using v0 v1 rr idx
      by (auto simp: EG_Update_def Let_def w3)
  qed
qed

theorem EG_Update_monotone_bounded_witness:
  "length (lin2expvol test_Statics) = 0x400 \<and>
   0 \<le> EG_volume (EG attack_SLOT) \<and> EG_volume (EG attack_SLOT) \<le> push_bit EG_SHIFT 0x3ff \<and>
   0 \<le> EG_AR (EG attack_SLOT) \<and> EG_AR (EG attack_SLOT) \<le> push_bit EG_SHIFT 0x400 \<and>
   0 \<le> EG_D1R (EG attack_SLOT) \<and> EG_D1R (EG attack_SLOT) < 2 ^ 31 \<and>
   0 \<le> EG_D2R (EG attack_SLOT) \<and> EG_D2R (EG attack_SLOT) < 2 ^ 31 \<and>
   0 \<le> EG_RR (EG attack_SLOT) \<and> EG_RR (EG attack_SLOT) < 2 ^ 31 \<and>
   (\<exists>slot' g. EG_Update test_Statics attack_SLOT = Some (slot', g) \<and>
      EG_state (EG attack_SLOT) = ATTACK \<and> EG_volume (EG attack_SLOT) \<le> EG_volume (EG slot') \<and>
      0 \<le> EG_volume (EG slot') \<and> EG_volume (EG slot') \<le> push_bit EG_SHIFT 0x3ff)"
  using EG_Update_monotone_bounded [of test_Statics attack_SLOT]
  by (simp add: test_Statics_lin2expvol attack_SLOT_def zero_SLOT_def zero_EG_def)

subsection \<open>The sample ROM\<close>

lemma lookup_None: "int (length xs) \<le> i \<Longrightarrow> lookup xs i = None"
  by (simp add: lookup_def)

lemma lookup_neg: "i < 0 \<Longrightarrow> lookup xs i = None"
  by (simp add: lookup_def)

lemma parse_Sample_None: "length rom < 12 * i + 12 \<Longrightarrow> parse_Sample rom i = None"
  by (auto simp: parse_Sample_def lookup_def Let_def split: bind_splits)

lemma parse_Sample_Some: "12 * i + 12 \<le> length rom \<Longrightarrow> \<exists>s. parse_Sample rom i = Some s"
  by (simp add: parse_Sample_def lookup_def Let_def)

lemma parse_Sample_take:
  "12 * i + 12 \<le> n \<Longrightarrow> parse_Sample (take n rom) i = parse_Sample rom i"
  by (cases "12 * i + 12 \<le> length rom") (simp_all add: parse_Sample_def lookup_def Let_def)

lemma rebuild_Samples_None:
  "0 < n \<Longrightarrow> length rom < 12 * (i + n) \<Longrightarrow> rebuild_Samples rom i n smps = None"
proof (induction n arbitrary: i smps)
  case 0
  then show ?case by simp
next
  case (Suc n)
  show ?case
  proof (cases "parse_Sample rom i")
    case None
    then show ?thesis by simp
  next
    case (Some s)
    then have "\<not> length rom < 12 * i + 12" using parse_Sample_None by fastforce
    with Suc.prems have "0 < n" "length rom < 12 * (Suc i + n)" by auto
    then have "rebuild_Samples rom (Suc i) n (smps[i := s]) = None" by (rule Suc.IH)
    with Some show ?thesis by simp
  qed
qed

lemma rebuild_Samples_Some:
  "12 * (i + n) \<le> length rom \<Longrightarrow> i + n \<le> length smps \<Longrightarrow>
   \<exists>smps'. rebuild_Samples rom i n smps = Some smps' \<and> length smps' = length smps \<and>
     (\<forall>k. i \<le> k \<and> k < i + n \<longrightarrow> parse_Sample rom k = Some (smps' ! k)) \<and>
     (\<forall>k. k < i \<or> i + n \<le> k \<longrightarrow> smps' ! k = smps ! k)"
proof (induction n arbitrary: i smps)
  case 0
  then show ?case by auto
next
  case (Suc n)
  from Suc.prems have "12 * i + 12 \<le> length rom" by simp
  then obtain s where s: "parse_Sample rom i = Some s" using parse_Sample_Some by blast
  from Suc.prems have "12 * (Suc i + n) \<le> length rom" "Suc i + n \<le> length (smps[i := s])"
    by simp_all
  from Suc.IH [OF this] obtain smps' where r: "rebuild_Samples rom (Suc i) n (smps[i := s]) = Some smps'"
    and l: "length smps' = length (smps[i := s])"
    and p: "\<forall>k. Suc i \<le> k \<and> k < Suc i + n \<longrightarrow> parse_Sample rom k = Some (smps' ! k)"
    and q: "\<forall>k. k < Suc i \<or> Suc i + n \<le> k \<longrightarrow> smps' ! k = smps[i := s] ! k"
    by blast
  from Suc.prems have il: "i < length smps" by simp
  have "rebuild_Samples rom i (Suc n) smps = Some smps'" using s r il by simp
  moreover have "length smps' = length smps" using l by simp
  moreover have "\<forall>k. i \<le> k \<and> k < i + Suc n \<longrightarrow> parse_Sample rom k = Some (smps' ! k)"
  proof (intro allI impI)
    fix k assume k: "i \<le> k \<and> k < i + Suc n"
    show "parse_Sample rom k = Some (smps' ! k)"
    proof (cases "k = i")
      case True
      then have "smps' ! k = smps[i := s] ! k" using q by simp
      then show ?thesis using True s il by simp
    next
      case False
      then show ?thesis using k p by simp
    qed
  qed
  moreover have "\<forall>k. k < i \<or> i + Suc n \<le> k \<longrightarrow> smps' ! k = smps ! k"
    using q by auto
  ultimately show ?case by blast
qed

lemma write_rom_early: "ROMSize c < offs \<Longrightarrow> multipcm_write_rom c offs len data = Some c"
  by (simp add: multipcm_write_rom_def)

lemma write_rom_char:
  assumes wf: "length (ROM c) = unat (ROMSize c)"
    and le: "offs \<le> ROMSize c"
    and nowrap: "unat offs + unat len < 2 ^ 32"
    and data: "unat len \<le> length data"
  shows "multipcm_write_rom c offs len data =
    (let n = min (unat len) (unat (ROMSize c) - unat offs);
         rom = take (unat offs) (ROM c) @ take n data @ drop (unat offs + n) (ROM c)
     in if offs < 0x1800
        then map_option (\<lambda>s. c\<lparr>ROM := rom, Samples := s\<rparr>) (rebuild_Samples rom 0 512 (Samples c))
        else Some (c\<lparr>ROM := rom\<rparr>))"
proof -
  have add: "unat (offs + len) = unat offs + unat len"
    using nowrap by (simp add: unat_add_lem [THEN iffD1])
  have sub: "unat (ROMSize c - offs) = unat (ROMSize c) - unat offs"
    using le by (simp add: unat_sub)
  have nlt: "\<not> ROMSize c < offs" using le by simp
  have le': "unat offs \<le> unat (ROMSize c)" using le by (simp add: word_le_nat_alt)
  show ?thesis
  proof (cases "offs + len > ROMSize c")
    case True
    then have gt: "unat (ROMSize c) < unat offs + unat len"
      using add by (simp add: word_less_nat_alt)
    then have n: "min (unat len) (unat (ROMSize c) - unat offs) = unat (ROMSize c) - unat offs"
      by simp
    have d: "unat (ROMSize c) - unat offs \<le> length data" using gt data by simp
    show ?thesis using True nlt le' wf d
      by (simp add: multipcm_write_rom_def memcpy_ROM_def Let_def sub n)
  next
    case False
    then have ngt: "unat offs + unat len \<le> unat (ROMSize c)"
      using add by (simp add: word_less_nat_alt)
    then have n: "min (unat len) (unat (ROMSize c) - unat offs) = unat len"
      by simp
    show ?thesis using False nlt wf data ngt
      by (simp add: multipcm_write_rom_def memcpy_ROM_def Let_def n)
  qed
qed

lemma test_chip_simps:
  "ROM test_chip = []" "ROMSize test_chip = 0" "ROMMask test_chip = 0"
  "Samples test_chip = replicate 0x200 zero_Sample"
  "CurSlot test_chip = 0" "Address test_chip = 0" "BankL test_chip = 0" "BankR test_chip = 0"
  by (simp_all add: test_chip_def device_start_multipcm_def Let_def multipcm_set_mute_mask_def
        multipcm_set_bank_def)

lemma rom_chip_simps:
  "ROM rom_chip = replicate 6144 0xFF" "ROMSize rom_chip = 0x1800"
  "Samples rom_chip = replicate 0x200 zero_Sample"
  by (simp_all add: rom_chip_def test_chip_simps)

lemma small_chip_simps:
  "ROM small_chip = replicate 100 0xFF" "ROMSize small_chip = 100"
  "Samples small_chip = replicate 0x200 zero_Sample"
  by (simp_all add: small_chip_def test_chip_simps)

lemma alloc_rom_test_chip: "multipcm_alloc_rom test_chip 0x1800 = Some rom_chip"
  by (simp add: multipcm_alloc_rom_def test_chip_simps ROMMask_loop.simps rom_chip_def)

lemma alloc_rom_small_chip: "multipcm_alloc_rom test_chip 100 = Some small_chip"
  by (simp add: multipcm_alloc_rom_def test_chip_simps ROMMask_loop.simps small_chip_def)

lemma rebuild_512:
  assumes "0x1800 \<le> length rom" "length smps = 0x200"
  shows "\<exists>smps'. rebuild_Samples rom 0 512 smps = Some smps' \<and>
           map Some smps' = map (parse_Sample (take 0x1800 rom)) [0..<0x200]"
proof -
  from assms have "12 * (0 + 512) \<le> length rom" "0 + 512 \<le> length smps" by simp_all
  from rebuild_Samples_Some [OF this] obtain smps' where
    r: "rebuild_Samples rom 0 512 smps = Some smps'" and l: "length smps' = length smps"
    and p: "\<forall>k. 0 \<le> k \<and> k < 0 + 512 \<longrightarrow> parse_Sample rom k = Some (smps' ! k)"
    by blast
  have "map Some smps' = map (parse_Sample (take 0x1800 rom)) [0..<0x200]"
  proof (rule nth_equalityI)
    show "length (map Some smps') = length (map (parse_Sample (take 0x1800 rom)) [0..<0x200])"
      using l assms by simp
  next
    fix i assume "i < length (map Some smps')"
    then have i: "i < 512" using l assms by simp
    then have "parse_Sample (take 0x1800 rom) i = parse_Sample rom i"
      by (intro parse_Sample_take) simp
    then show "map Some smps' ! i = map (parse_Sample (take 0x1800 rom)) [0..<0x200] ! i"
      using i p l assms by simp
  qed
  with r show ?thesis by blast
qed

lemma rebuild_512_None:
  assumes "length rom < 0x1800"
  shows "rebuild_Samples rom 0 512 smps = None"
  using assms by (intro rebuild_Samples_None) simp_all

lemma rebuild_512_nth:
  assumes "rebuild_Samples rom 0 512 smps = Some smps'" "0x1800 \<le> length rom"
    "length smps = 0x200" "i < 0x200"
  shows "parse_Sample rom i = Some (smps' ! i)"
proof -
  from assms have "12 * (0 + 512) \<le> length rom" "0 + 512 \<le> length smps" by simp_all
  from rebuild_Samples_Some [OF this] assms show ?thesis by auto
qed

lemma parse_byte_order_hdr:
  "parse_Sample (byte_order_hdr @ xs) 0 =
     Some \<lparr>Start = 0x010203, Loop = 0x0405, End = 0xffef, AR = 0, DR1 = 0, DR2 = 0, DL = 0,
           RR = 0, KRS = 0, LFOVIB = 0, AM = 0\<rparr>"
  by (simp add: parse_Sample_def lookup_def Let_def byte_order_hdr_def)

lemma write_rom_hdr:
  assumes wf: "length (ROM c) = unat (ROMSize c)"
    and big: "0x1800 \<le> ROMSize c"
    and smps: "length (Samples c) = 0x200"
  shows "\<exists>c'. multipcm_write_rom c 0 12 byte_order_hdr = Some c' \<and>
     Start (Samples c' ! 0) = 0x010203 \<and> Loop (Samples c' ! 0) = 0x0405 \<and>
     End (Samples c' ! 0) = 0xffef"
proof -
  have big': "6144 \<le> unat (ROMSize c)" using big by (simp add: word_le_nat_alt)
  let ?rom = "byte_order_hdr @ drop 12 (ROM c)"
  have len: "0x1800 \<le> length ?rom" using wf big' by (simp add: byte_order_hdr_def)
  from rebuild_512 [OF len smps] obtain smps' where
    r: "rebuild_Samples ?rom 0 512 (Samples c) = Some smps'"
    and m: "map Some smps' = map (parse_Sample (take 0x1800 ?rom)) [0..<0x200]" by blast
  from rebuild_512_nth [OF r len smps, of 0]
  have s0: "smps' ! 0 = \<lparr>Start = 0x010203, Loop = 0x0405, End = 0xffef, AR = 0, DR1 = 0,
      DR2 = 0, DL = 0, RR = 0, KRS = 0, LFOVIB = 0, AM = 0\<rparr>"
    by (simp add: parse_byte_order_hdr)
  have "multipcm_write_rom c 0 12 byte_order_hdr =
      Some (c\<lparr>ROM := ?rom, Samples := smps'\<rparr>)"
    using wf big' r
    by (subst write_rom_char [OF wf]) (simp_all add: Let_def byte_order_hdr_def)
  then show ?thesis using s0 by simp
qed

text \<open>
  C2 (as amended).  On a chip whose ROM holds at least 6144 bytes,
  \<open>write_rom(0, 12, [01 02 03 04 05 00 10 00 00 00 00 00])\<close> returns and leaves descriptor 0
  with \<open>Start = 0x010203\<close>, \<open>Loop = 0x0405\<close> and \<open>End = 0xffff - 0x0010 = 0xffef\<close>: the length
  is read from bytes 5 and 6, which are \<open>00 10\<close>.
\<close>

theorem write_rom_byte_order:
  assumes wf: "length (ROM c) = unat (ROMSize c)"
    and big: "0x1800 \<le> ROMSize c"
    and smps: "length (Samples c) = 0x200"
  shows "\<exists>c'. multipcm_write_rom c 0 12 [0x01, 0x02, 0x03, 0x04, 0x05, 0x00, 0x10, 0x00, 0x00, 0x00, 0x00, 0x00] = Some c' \<and>
     Start (Samples c' ! 0) = 0x010203 \<and> Loop (Samples c' ! 0) = 0x0405 \<and>
     End (Samples c' ! 0) = 0xffff - 0x0010 \<and> End (Samples c' ! 0) = 0xffef"
  using write_rom_hdr [OF assms] by (simp add: byte_order_hdr_def)

theorem write_rom_byte_order_witness:
  "length (ROM rom_chip) = unat (ROMSize rom_chip) \<and> 0x1800 \<le> ROMSize rom_chip \<and>
   length (Samples rom_chip) = 0x200 \<and>
   (\<exists>c'. multipcm_write_rom rom_chip 0 12 [0x01, 0x02, 0x03, 0x04, 0x05, 0x00, 0x10, 0x00, 0x00, 0x00, 0x00, 0x00] = Some c' \<and>
     Start (Samples c' ! 0) = 0x010203 \<and> Loop (Samples c' ! 0) = 0x0405 \<and>
     End (Samples c' ! 0) = 0xffff - 0x0010 \<and> End (Samples c' ! 0) = 0xffef)"
  using write_rom_byte_order [of rom_chip] by (simp add: rom_chip_simps)

text \<open>On the chip right after \<open>alloc_rom(6144)\<close>, the same write does not give
  \<open>End = 0xfaff\<close>.\<close>

theorem write_rom_byte_order_counterexample:
  "multipcm_write_rom rom_chip 0 12 byte_order_hdr \<noteq> None \<and>
   End (Samples (the (multipcm_write_rom rom_chip 0 12 byte_order_hdr)) ! 0) \<noteq> 0xfaff"
proof -
  have "\<exists>c'. multipcm_write_rom rom_chip 0 12 byte_order_hdr = Some c' \<and>
     Start (Samples c' ! 0) = 0x010203 \<and> Loop (Samples c' ! 0) = 0x0405 \<and>
     End (Samples c' ! 0) = 0xffef"
    by (rule write_rom_hdr) (simp_all add: rom_chip_simps)
  then show ?thesis by auto
qed

text \<open>
  C5 (as amended).  On a chip whose ROM holds at least 6144 bytes, for a call
  \<open>write_rom(offset, length, bytes)\<close> where \<open>offset + length\<close> does not exceed 32 bits and
  \<open>bytes\<close> holds \<open>length\<close> bytes: the call returns; a write with \<open>offset > ROMSize\<close> changes
  nothing; otherwise the first \<open>min(length, ROMSize - offset)\<close> bytes are copied to
  \<open>offset\<close> and the ROM keeps its size; nothing but the ROM and the descriptors changes;
  and the 512 descriptors are rebuilt from the first 6144 ROM bytes exactly when
  \<open>offset < 6144\<close> (also when no byte is written), and are left as they were otherwise.
\<close>

theorem write_rom_truncates_and_rebuilds:
  assumes wf: "length (ROM c) = unat (ROMSize c)"
    and smps: "length (Samples c) = 0x200"
    and big: "0x1800 \<le> ROMSize c"
    and nowrap: "unat offs + unat len < 2 ^ 32"
    and data: "unat len \<le> length data"
  shows "\<exists>rom' smps'.
     multipcm_write_rom c offs len data = Some (c\<lparr>ROM := rom', Samples := smps'\<rparr>) \<and>
     length rom' = length (ROM c) \<and>
     rom' = (if ROMSize c < offs then ROM c
             else take (unat offs) (ROM c)
                  @ take (min (unat len) (unat (ROMSize c) - unat offs)) data
                  @ drop (unat offs + min (unat len) (unat (ROMSize c) - unat offs)) (ROM c)) \<and>
     (if offs < 0x200 * 12
      then map Some smps' = map (parse_Sample (take 0x1800 rom')) [0..<0x200]
      else smps' = Samples c)"
proof (cases "ROMSize c < offs")
  case True
  then have "\<not> offs < 0x200 * 12" using big by simp
  then show ?thesis using True
    by (intro exI [of _ "ROM c"] exI [of _ "Samples c"]) (simp add: write_rom_early)
next
  case False
  then have le: "offs \<le> ROMSize c" by simp
  then have le': "unat offs \<le> unat (ROMSize c)" by (simp add: word_le_nat_alt)
  define n where "n = min (unat len) (unat (ROMSize c) - unat offs)"
  define rom' where "rom' = take (unat offs) (ROM c) @ take n data @ drop (unat offs + n) (ROM c)"
  have n: "n \<le> length data" "unat offs + n \<le> length (ROM c)"
    using data wf le' by (simp_all add: n_def)
  then have lr: "length rom' = length (ROM c)" by (simp add: rom'_def)
  have w: "multipcm_write_rom c offs len data =
      (if offs < 0x1800
       then map_option (\<lambda>s. c\<lparr>ROM := rom', Samples := s\<rparr>) (rebuild_Samples rom' 0 512 (Samples c))
       else Some (c\<lparr>ROM := rom'\<rparr>))"
    by (subst write_rom_char [OF wf le nowrap data]) (simp add: Let_def n_def rom'_def)
  show ?thesis
  proof (cases "offs < 0x1800")
    case True
    have "0x1800 \<le> length rom'" using lr wf big by (simp add: word_le_nat_alt)
    from rebuild_512 [OF this smps] obtain smps' where
      "rebuild_Samples rom' 0 512 (Samples c) = Some smps'"
      "map Some smps' = map (parse_Sample (take 0x1800 rom')) [0..<0x200]" by blast
    then show ?thesis using True False w lr
      by (intro exI [of _ rom'] exI [of _ smps']) (simp add: rom'_def n_def)
  next
    case F: False
    have "c\<lparr>ROM := rom'\<rparr> = c\<lparr>ROM := rom', Samples := Samples c\<rparr>" by simp
    then show ?thesis using F False w lr
      by (intro exI [of _ rom'] exI [of _ "Samples c"]) (simp add: rom'_def n_def)
  qed
qed

lemma FF_Sample: "parse_Sample (replicate 6144 0xFF) 0 =
   Some \<lparr>Start = 0xFFFFFF, Loop = 0xFFFF, End = 0, AR = 0xF, DR1 = 0xF, DR2 = 0xF, DL = 0xF,
           RR = 0xF, KRS = 0xF, LFOVIB = 0xFF, AM = 0xFF\<rparr>"
  by (simp add: parse_Sample_def lookup_def Let_def)

theorem write_rom_truncates_and_rebuilds_witness:
  "length (ROM rom_chip) = unat (ROMSize rom_chip) \<and> length (Samples rom_chip) = 0x200 \<and>
   0x1800 \<le> ROMSize rom_chip \<and> unat (0x17FC :: u32) + unat (0x10 :: u32) < 2 ^ 32 \<and>
   unat (0x10 :: u32) \<le> length (replicate 16 (0 :: u8)) \<and>
   (\<exists>rom' smps'.
     multipcm_write_rom rom_chip 0x17FC 0x10 (replicate 16 0) = Some (rom_chip\<lparr>ROM := rom', Samples := smps'\<rparr>) \<and>
     length rom' = length (ROM rom_chip) \<and>
     rom' = replicate 6140 0xFF @ replicate 4 0 \<and>
     map Some smps' = map (parse_Sample (take 0x1800 rom')) [0..<0x200])"
  using write_rom_truncates_and_rebuilds [of rom_chip "0x17FC" "0x10" "replicate 16 0"]
  by (simp add: rom_chip_simps)

text \<open>On the chip right after \<open>alloc_rom(6144)\<close> the descriptors are all zero and the ROM
  is all \<open>0xFF\<close>.  The window of \<open>write_rom(0, 0, [])\<close> is empty, so it does not meet
  \<open>[0, 6144)\<close>, and yet the descriptors change.\<close>

theorem write_rom_empty_window_counterexample:
  "{unat (0 :: u32) ..< unat (0 :: u32) + unat (0 :: u32)} \<inter> {0 ..< 6144} = {} \<and>
   multipcm_write_rom rom_chip 0 0 [] \<noteq> None \<and>
   Samples (the (multipcm_write_rom rom_chip 0 0 [])) \<noteq> Samples rom_chip"
proof -
  from rebuild_512 [of "replicate 6144 0xFF" "replicate 0x200 zero_Sample"]
  obtain smps' where r: "rebuild_Samples (replicate 6144 0xFF) 0 512 (replicate 0x200 zero_Sample) = Some smps'"
    and m: "map Some smps' = map (parse_Sample (take 0x1800 (replicate 6144 0xFF))) [0..<0x200]"
    by auto
  from rebuild_512_nth [OF r, of 0]
  have "smps' ! 0 = \<lparr>Start = 0xFFFFFF, Loop = 0xFFFF, End = 0, AR = 0xF, DR1 = 0xF, DR2 = 0xF,
      DL = 0xF, RR = 0xF, KRS = 0xF, LFOVIB = 0xFF, AM = 0xFF\<rparr>"
    by (simp add: FF_Sample)
  then have "Start (smps' ! 0) = 0xFFFFFF" by simp
  moreover have "Start (replicate 0x200 zero_Sample ! 0) = 0" by (simp add: zero_Sample_def)
  ultimately have ne: "smps' \<noteq> replicate 0x200 zero_Sample" by auto
  have "multipcm_write_rom rom_chip 0 0 [] = Some (rom_chip\<lparr>ROM := replicate 6144 0xFF, Samples := smps'\<rparr>)"
    using r by (subst write_rom_char) (simp_all add: rom_chip_simps Let_def)
  then show ?thesis using ne by (simp add: rom_chip_simps)
qed

lemma memcpy_ROM_length: "memcpy_ROM rom offs data n = Some rom' \<Longrightarrow> length rom' = length rom"
  by (auto simp: memcpy_ROM_def split: if_splits)

text \<open>
  C10 (as amended).  For every \<open>write_rom\<close> call with \<open>offset < 6144\<close> that passes the
  guard \<open>offset > ROMSize\<close> (so also for \<open>offset = ROMSize\<close>, where no byte is written), on
  a chip with \<open>ROMSize < 6144\<close>: the call reads outside the ROM.  A copy of no bytes
  succeeds, and it is the rebuild of the descriptors, which reads the bytes \<open>0 .. 6143\<close>
  whatever the ROM size, that leaves the ROM.
\<close>

theorem write_rom_rebuild_out_of_bounds:
  assumes wf: "length (ROM c) = unat (ROMSize c)"
    and lt: "offs < 0x200 * 12"
    and le: "offs \<le> ROMSize c"
    and small: "ROMSize c < 0x200 * 12"
  shows "multipcm_write_rom c offs len data = None \<and>
         memcpy_ROM (ROM c) (unat offs) data 0 = Some (ROM c) \<and>
         rebuild_Samples (ROM c) 0 512 (Samples c) = None"
proof -
  have s: "length (ROM c) < 0x1800" using wf small by (simp add: word_less_nat_alt)
  have "multipcm_write_rom c offs len data = None"
  proof (cases "memcpy_ROM (ROM c) (unat offs) data
        (unat (if offs + len > ROMSize c then ROMSize c - offs else len))")
    case None
    then show ?thesis using le by (simp add: multipcm_write_rom_def Let_def flip: not_le)
  next
    case (Some rom')
    then have "length rom' < 0x1800" using s memcpy_ROM_length by fastforce
    then have "rebuild_Samples rom' 0 512 (Samples c) = None" by (rule rebuild_512_None)
    then show ?thesis using Some le lt
      by (simp add: multipcm_write_rom_def Let_def flip: not_le)
  qed
  moreover have "memcpy_ROM (ROM c) (unat offs) data 0 = Some (ROM c)"
    using le wf by (simp add: memcpy_ROM_def word_le_nat_alt)
  moreover have "rebuild_Samples (ROM c) 0 512 (Samples c) = None"
    using s by (rule rebuild_512_None)
  ultimately show ?thesis by simp
qed

theorem write_rom_rebuild_out_of_bounds_witness:
  "length (ROM test_chip) = unat (ROMSize test_chip) \<and> (0 :: u32) < 0x200 * 12 \<and>
   0 \<le> ROMSize test_chip \<and> ROMSize test_chip < 0x200 * 12 \<and>
   multipcm_write_rom test_chip 0 0 [] = None \<and>
   memcpy_ROM (ROM test_chip) (unat (0 :: u32)) [] 0 = Some (ROM test_chip) \<and>
   rebuild_Samples (ROM test_chip) 0 512 (Samples test_chip) = None"
  using write_rom_rebuild_out_of_bounds [of test_chip 0 0 "[]"]
  by (simp add: test_chip_simps)

text \<open>With \<open>ROMSize = 100\<close>, a call with \<open>offset = 200 < 6144\<close> returns at the guard: no
  rebuild and no read outside the ROM.\<close>

theorem write_rom_no_rebuild_counterexample:
  "(200 :: u32) < 0x200 * 12 \<and> multipcm_write_rom small_chip 200 0 [] = Some small_chip"
  by (simp add: multipcm_write_rom_def small_chip_simps)

subsection \<open>Allocation of the ROM\<close>

lemma unat_two_power: "k < 32 \<Longrightarrow> unat ((2 :: u32) ^ k) = 2 ^ k"
proof -
  assume k: "k < 32"
  have "(2 :: u32) ^ k = of_nat (2 ^ k)" by simp
  then have "unat ((2 :: u32) ^ k) = 2 ^ k mod 2 ^ 32"
    by (simp only: unat_of_nat) simp
  moreover have "(2::nat) ^ k < 2 ^ 32" using k by (intro power_strict_increasing) simp_all
  ultimately show ?thesis by simp
qed

lemma ROMMask_loop_zero_Some:
  "ROMMask_loop m memsize = Some y \<Longrightarrow> \<not> (m = 0 \<and> 0 < memsize)"
proof (rule ROMMask_loop.raw_induct [where P = "\<lambda>m memsize y. \<not> (m = 0 \<and> 0 < memsize)"])
  show "ROMMask_loop m memsize = Some y \<Longrightarrow> ROMMask_loop m memsize = Some y" .
next
  fix loop :: "u32 \<Rightarrow> u32 \<Rightarrow> u32 option" and m memsize :: u32 and y
  assume "\<And>m memsize y. loop m memsize = Some y \<Longrightarrow> \<not> (m = 0 \<and> 0 < memsize)"
    and "(if m < memsize then loop (push_bit 1 m) memsize else Some m) = Some y"
  then show "\<not> (m = 0 \<and> 0 < memsize)" by (auto split: if_splits)
qed

lemma ROMMask_loop_zero: "0 < memsize \<Longrightarrow> ROMMask_loop 0 memsize = None"
  using ROMMask_loop_zero_Some [of 0 memsize] by (cases "ROMMask_loop 0 memsize") auto

lemma ROMMask_loop_diverges:
  assumes "0x80000000 < memsize" "k \<le> 32"
  shows "ROMMask_loop (2 ^ k) memsize = None"
  using assms
proof (induction "32 - k" arbitrary: k)
  case 0
  then have "k = 32" by simp
  then have z: "(2 :: u32) ^ k = 0" by simp
  have "0 < memsize" using 0 by (simp add: word_less_nat_alt)
  then show ?case unfolding z by (rule ROMMask_loop_zero)
next
  case (Suc d)
  then have k: "k < 32" by simp
  then have "(2::nat) ^ k \<le> 2 ^ 31" by (intro power_increasing) simp_all
  then have "unat ((2 :: u32) ^ k) \<le> 2 ^ 31" using k by (simp add: unat_two_power)
  then have lt: "(2 :: u32) ^ k < memsize" using Suc.prems(1)
    by (simp add: word_less_nat_alt)
  have "ROMMask_loop (2 ^ Suc k) memsize = None"
    using Suc by (intro Suc.hyps(1)) simp_all
  then show ?case using lt by (subst ROMMask_loop.simps) (simp add: push_bit_eq_mult mult.commute)
qed

lemma ROMMask_loop_returns:
  assumes "memsize \<le> 0x80000000" "k \<le> 31" "\<forall>j<k. 2 ^ j < unat memsize"
  shows "\<exists>n. k \<le> n \<and> n \<le> 31 \<and> ROMMask_loop (2 ^ k) memsize = Some (2 ^ n) \<and>
           unat memsize \<le> 2 ^ n \<and> (\<forall>j<n. 2 ^ j < unat memsize)"
  using assms
proof (induction "31 - k" arbitrary: k)
  case 0
  then have k: "k = 31" by simp
  have "unat memsize \<le> 2 ^ 31" using 0 by (simp add: word_le_nat_alt)
  then have "\<not> (2 :: u32) ^ k < memsize" using k by (simp add: word_less_nat_alt unat_two_power)
  then have "ROMMask_loop (2 ^ k) memsize = Some (2 ^ k)" by (subst ROMMask_loop.simps) simp
  then show ?case using 0 k \<open>unat memsize \<le> 2 ^ 31\<close> by (intro exI [of _ k]) simp
next
  case (Suc d)
  then have k: "k < 31" by simp
  show ?case
  proof (cases "(2 :: u32) ^ k < memsize")
    case True
    then have lt: "2 ^ k < unat memsize" using k by (simp add: word_less_nat_alt unat_two_power)
    have "\<forall>j<Suc k. 2 ^ j < unat memsize" using Suc.prems(3) lt by (auto simp: less_Suc_eq)
    with Suc k have "\<exists>n. Suc k \<le> n \<and> n \<le> 31 \<and> ROMMask_loop (2 ^ Suc k) memsize = Some (2 ^ n) \<and>
           unat memsize \<le> 2 ^ n \<and> (\<forall>j<n. 2 ^ j < unat memsize)"
      by (intro Suc.hyps(1)) simp_all
    then obtain n where n: "Suc k \<le> n" "n \<le> 31" "ROMMask_loop (2 ^ Suc k) memsize = Some (2 ^ n)"
      "unat memsize \<le> 2 ^ n" "\<forall>j<n. 2 ^ j < unat memsize" by blast
    have "ROMMask_loop (2 ^ k) memsize = Some (2 ^ n)"
      using True n(3) by (subst ROMMask_loop.simps) (simp add: push_bit_eq_mult mult.commute)
    then show ?thesis using n by (intro exI [of _ n]) simp
  next
    case False
    then have "unat memsize \<le> 2 ^ k" using k by (simp add: word_less_nat_alt unat_two_power)
    moreover have "ROMMask_loop (2 ^ k) memsize = Some (2 ^ k)"
      using False by (subst ROMMask_loop.simps) simp
    ultimately show ?thesis using Suc.prems k by (intro exI [of _ k]) simp
  qed
qed

lemma alloc_rom_returns:
  assumes "memsize \<le> 0x80000000" "ROMSize c \<noteq> memsize"
  shows "\<exists>n\<le>31. multipcm_alloc_rom c memsize =
             Some (c\<lparr>ROM := replicate (unat memsize) 0xFF, ROMSize := memsize, ROMMask := 2 ^ n - 1\<rparr>) \<and>
           unat memsize \<le> 2 ^ n \<and> (\<forall>j<n. 2 ^ j < unat memsize)"
proof -
  from ROMMask_loop_returns [OF assms(1), of 0] obtain n where
    "n \<le> 31" "ROMMask_loop (2 ^ 0) memsize = Some (2 ^ n)"
    "unat memsize \<le> 2 ^ n" "\<forall>j<n. 2 ^ j < unat memsize" by auto
  then show ?thesis using assms(2)
    by (intro exI [of _ n]) (simp add: multipcm_alloc_rom_def)
qed

lemma alloc_rom_same: "multipcm_alloc_rom c (ROMSize c) = Some c"
  by (simp add: multipcm_alloc_rom_def)

lemma alloc_rom_diverges:
  assumes "0x80000000 < memsize" "ROMSize c \<noteq> memsize"
  shows "multipcm_alloc_rom c memsize = None"
  using assms ROMMask_loop_diverges [of memsize 0]
  by (simp add: multipcm_alloc_rom_def)

text \<open>
  C8.  \<open>alloc_rom\<close> with the size the chip has changes nothing, and with another size up
  to \<open>0x80000000\<close> it returns with the ROM filled with \<open>0xFF\<close> and the smallest mask
  \<open>2^n - 1\<close> that reaches \<open>size - 1\<close> (the two lemmas above).  With a size above
  \<open>0x80000000\<close> the doubling of \<open>ROMMask\<close> wraps to 0 and the loop never ends: here for
  \<open>size = 0x80000001\<close> on a new chip.
\<close>

theorem alloc_rom_does_not_return:
  "ROMSize test_chip \<noteq> 0x80000001 \<and> multipcm_alloc_rom test_chip 0x80000001 = None"
  by (simp add: alloc_rom_diverges test_chip_simps)

subsection \<open>Key-on and key-off\<close>

lemma Get_RATE_no_lower_clamp:
  "val \<noteq> 0 \<Longrightarrow> val \<noteq> 0xf \<Longrightarrow> sint (4 * val + rate) < 0 \<Longrightarrow> Get_RATE Steps rate val = None"
  by (simp add: Get_RATE_def Let_def lookup_def)

lemma Slots_test_chip: "Slots test_chip = replicate 28 zero_SLOT"
proof (rule nth_equalityI)
  show "length (Slots test_chip) = length (replicate 28 zero_SLOT)"
    by (simp add: test_chip_def device_start_multipcm_def Let_def multipcm_set_mute_mask_def
        multipcm_set_bank_def)
next
  fix i assume "i < length (Slots test_chip)"
  then have "i < 28"
    by (simp add: test_chip_def device_start_multipcm_def Let_def multipcm_set_mute_mask_def
        multipcm_set_bank_def)
  then show "Slots test_chip ! i = replicate 28 zero_SLOT ! i"
    by (simp add: test_chip_def device_start_multipcm_def Let_def multipcm_set_mute_mask_def
        multipcm_set_bank_def nth_enumerate_eq zero_SLOT_def)
qed

lemma test_chip_tables:
  "FNS_Table test_chip = map (\<lambda>i. 0x1000) [0..<0x400]"
  "Rate test_chip = \<lparr>pitch_div_Rate = (\<lambda>p. p), LFO_phase_step = (\<lambda>f. 3)\<rparr>"
  "length (ARStep test_chip) = 0x40" "length (DRStep test_chip) = 0x40"
  by (simp_all add: test_chip_def device_start_multipcm_def Let_def multipcm_set_mute_mask_def
        multipcm_set_bank_def test_Float_def)

lemma ARStep0: "ARStep test_chip ! 0 = 0" "DRStep test_chip ! 0 = 0"
  by (simp_all add: test_chip_def device_start_multipcm_def Let_def multipcm_set_mute_mask_def
        multipcm_set_bank_def test_Float_def)

lemma rom_chip_more:
  "Slots rom_chip = Slots test_chip" "ARStep rom_chip = ARStep test_chip"
  "DRStep rom_chip = DRStep test_chip" "FNS_Table rom_chip = FNS_Table test_chip"
  "Rate rom_chip = Rate test_chip" "BankL rom_chip = 0" "BankR rom_chip = 0"
  "CurSlot rom_chip = 0" "Address rom_chip = 0" "ROMMask rom_chip = 0x1FFF"
  by (simp_all add: rom_chip_def test_chip_simps)

lemma key_on_zero_SLOT: "WriteSlot test_Statics rom_chip zero_SLOT 4 0x80 = Some keyed_SLOT"
  apply (subst WriteSlot.simps)
  apply (simp add: zero_SLOT_def Sample_of_def lookup_def rom_chip_simps zero_Sample_def EG_Calc_def Get_RATE_def
     rom_chip_more test_chip_tables keyed_SLOT_def zero_EG_def ARStep0 EG_rate_def)
  done

lemma WriteSlot_key_off_eq:
  assumes "4 < length (Regs slot)" "data AND 0x80 = 0"
  shows "WriteSlot S c slot 4 data =
    (let slot' = slot\<lparr>Regs := (Regs slot)[4 := data]\<rparr> in
     if Playing slot
     then map_option (\<lambda>smp. if RR smp \<noteq> 0xf then slot'\<lparr>EG := (EG slot)\<lparr>EG_state := RELEASE\<rparr>\<rparr>
                               else slot'\<lparr>Playing := False\<rparr>) (Sample_of c slot)
     else Some slot')"
  using assms
  by (subst WriteSlot.simps) (auto simp: Let_def Sample_of_def split: bind_splits option.splits)

text \<open>
  C4 (as amended).  A write to register 4 with the high bit clear returns.  On a playing
  voice it sets the EG state to \<open>RELEASE\<close> when the latched sample's \<open>RR\<close> is not \<open>0xf\<close>, and
  clears \<open>Playing\<close> at once when it is \<open>0xf\<close>, so that the next rendered sample skips the
  voice.  On a voice that is not playing it changes nothing but \<open>Regs[4]\<close>.
\<close>

theorem WriteSlot_key_off:
  assumes len: "length (Regs slot) = 8"
    and off: "data AND 0x80 = 0"
    and smp: "Playing slot \<Longrightarrow> Sample_of c slot = Some smp"
  shows "\<exists>slot'. WriteSlot S c slot 4 data = Some slot' \<and>
     (if Playing slot
      then (if RR smp \<noteq> 0xf
            then EG_state (EG slot') = RELEASE \<and> Playing slot'
            else \<not> Playing slot' \<and> EG_state (EG slot') = EG_state (EG slot) \<and>
                 render_slots S c [slot'] smpl smpr = Some ([slot'], smpl, smpr))
      else slot' = slot\<lparr>Regs := (Regs slot)[4 := data]\<rparr>)"
proof -
  have l: "4 < length (Regs slot)" using len by simp
  show ?thesis using smp
    by (cases "Playing slot") (auto simp: WriteSlot_key_off_eq [OF l off] Let_def)
qed

lemma Sample_of_keyed: "Sample_of rom_chip keyed_SLOT = Some zero_Sample"
  by (simp add: Sample_of_def keyed_SLOT_def rom_chip_simps lookup_def)

theorem WriteSlot_key_off_witness:
  "length (Regs keyed_SLOT) = 8 \<and> (0x00 :: u8) AND 0x80 = 0 \<and> Playing keyed_SLOT \<and>
   Sample_of rom_chip keyed_SLOT = Some zero_Sample \<and> RR zero_Sample \<noteq> 0xf \<and>
   (\<exists>slot'. WriteSlot test_Statics rom_chip keyed_SLOT 4 0x00 = Some slot' \<and>
      EG_state (EG slot') = RELEASE \<and> Playing slot')"
  using WriteSlot_key_off [of keyed_SLOT "0x00" rom_chip zero_Sample test_Statics]
  by (simp add: Sample_of_keyed) (simp add: keyed_SLOT_def zero_SLOT_def zero_Sample_def)

text \<open>A voice that was keyed on and then stopped by a reset, with \<open>RR = 0\<close>: the key-off
  write leaves it in \<open>ATTACK\<close>.\<close>

theorem WriteSlot_key_off_stopped_counterexample:
  "Sample_of rom_chip stopped_SLOT = Some zero_Sample \<and> RR zero_Sample \<noteq> 0xf \<and>
   WriteSlot test_Statics rom_chip stopped_SLOT 4 0x00
     = Some (stopped_SLOT\<lparr>Regs := [0, 0, 0, 0, 0x00, 0, 0, 0]\<rparr>) \<and>
   EG_state (EG stopped_SLOT) = ATTACK \<and> \<not> Playing stopped_SLOT"
  by (simp add: WriteSlot_key_off_eq stopped_SLOT_def keyed_SLOT_def zero_SLOT_def zero_EG_def
       Sample_of_def rom_chip_simps lookup_def zero_Sample_def)

lemma parse_krs_hdr: "parse_Sample (krs_hdr @ xs) 0 = Some krs_Sample"
  by (simp add: parse_Sample_def lookup_def Let_def krs_hdr_def krs_Sample_def)

lemma length_krs_hdr: "length krs_hdr = 12"
  by (simp add: krs_hdr_def)

lemma write_rom_krs_hdr:
  "\<exists>smps. multipcm_write_rom rom_chip 0 12 krs_hdr
       = Some (rom_chip\<lparr>ROM := krs_hdr @ replicate 6132 0xFF, Samples := smps\<rparr>) \<and>
     lookup smps 0 = Some krs_Sample"
proof -
  let ?rom = "krs_hdr @ replicate 6132 0xFF"
  have len: "0x1800 \<le> length ?rom" by (simp add: length_krs_hdr)
  have smps: "length (Samples rom_chip) = 0x200" by (simp add: rom_chip_simps)
  from rebuild_512 [OF len smps] obtain smps' where
    r: "rebuild_Samples ?rom 0 512 (Samples rom_chip) = Some smps'"
    and m: "map Some smps' = map (parse_Sample (take 0x1800 ?rom)) [0..<0x200]" by blast
  from m have l: "length smps' = 0x200" by (metis length_map length_upt diff_zero)
  from rebuild_512_nth [OF r len smps, of 0] have s0: "smps' ! 0 = krs_Sample"
    by (simp add: parse_krs_hdr)
  have w: "multipcm_write_rom rom_chip 0 12 krs_hdr = Some (rom_chip\<lparr>ROM := ?rom, Samples := smps'\<rparr>)"
    using r by (subst write_rom_char) (simp_all add: rom_chip_simps Let_def length_krs_hdr)
  have "lookup smps' 0 = Some krs_Sample" using s0 l by (simp add: lookup_def)
  with w show ?thesis by (intro exI [of _ smps'] conjI)
qed

lemma WriteSlot_reg3:
  assumes "FNS_Table c = FNS_Table test_chip" "Rate c = Rate test_chip"
  shows "WriteSlot test_Statics c zero_SLOT 3 0x90 = Some octave_SLOT"
  using assms
  by (subst WriteSlot.simps)
     (simp add: zero_SLOT_def lookup_def test_chip_tables octave_SLOT_def)

lemma octave_trace_Some:
  "\<exists>smps. octave_trace = Some (rom_chip\<lparr>ROM := krs_hdr @ replicate 6132 0xFF, Samples := smps,
       Address := 4, Slots := (Slots test_chip)[0 := octave_SLOT]\<rparr>) \<and>
     lookup smps 0 = Some krs_Sample"
proof -
  from write_rom_krs_hdr obtain smps where
    w: "multipcm_write_rom rom_chip 0 12 krs_hdr
       = Some (rom_chip\<lparr>ROM := krs_hdr @ replicate 6132 0xFF, Samples := smps\<rparr>)"
    and s: "lookup smps 0 = Some krs_Sample" by blast
  have "octave_trace = Some (rom_chip\<lparr>ROM := krs_hdr @ replicate 6132 0xFF, Samples := smps,
       Address := 4, Slots := (Slots test_chip)[0 := octave_SLOT]\<rparr>)"
    by (simp add: octave_trace_def alloc_rom_test_chip w multipcm_w_def write_CurSlot_def
          rom_chip_more Slots_test_chip lookup_def WriteSlot_reg3)
  with s show ?thesis by blast
qed

lemma EG_rate_octave: "EG_rate 0x90 krs_Sample = - 16"
  by (simp add: EG_rate_def EG_octave_def krs_Sample_def s32_def)

lemma krs_Sample_simps: "AR krs_Sample = 1" "KRS krs_Sample = 0"
  by (simp_all add: krs_Sample_def)

lemma Get_RATE_octave: "Get_RATE Steps (- 16) 1 = None"
  by (rule Get_RATE_no_lower_clamp) simp_all

lemma EG_Calc_octave:
  assumes "lookup (Regs slot) 3 = Some 0x90" "Sample_of c slot = Some krs_Sample"
  shows "EG_Calc c slot = None"
  using assms
  by (simp add: EG_Calc_def EG_rate_octave krs_Sample_simps Get_RATE_octave)

lemma WriteSlot_key_on_octave:
  assumes "length (Regs slot) = 8" "lookup (Regs slot) 1 = Some r1"
    "lookup (Regs slot) 3 = Some 0x90" "lookup (Samples c) (uint r1) = Some krs_Sample"
  shows "WriteSlot S c slot 4 0x80 = None"
proof -
  let ?s = "slot\<lparr>Regs := (Regs slot)[4 := 0x80], Sample := Some (unat r1), Playing := True,
      Base := Start krs_Sample, offset := 0, Prev := 0, TL := push_bit 12 (DstTL slot)\<rparr>"
  have r: "lookup ((Regs slot)[4 := 0x80]) 1 = Some r1" "lookup ((Regs slot)[4 := 0x80]) 3 = Some 0x90"
    using assms by (simp_all add: lookup_def)
  have "Sample_of c ?s = Some krs_Sample" using assms(4) by (simp add: Sample_of_def)
  moreover have "lookup (Regs ?s) 3 = Some 0x90" using r by simp
  ultimately have "EG_Calc c ?s = None" by (intro EG_Calc_octave)
  then show ?thesis using assms r
    by (subst WriteSlot.simps) (simp add: Sample_of_def)
qed

text \<open>
  C9.  After \<open>alloc_rom(6144)\<close>, a \<open>write_rom\<close> of a descriptor with \<open>AR = 1\<close> and \<open>KRS = 0\<close>,
  and \<open>0x90\<close> written to register 3 of voice 0 (octave \<open>-8\<close>), the chip is in a state where
  the key-on write computes \<open>rate = -16\<close> and the index \<open>4 * 1 + rate = -12\<close>; \<open>Get_RATE\<close>
  clamps the index at \<open>0x3f\<close> only, so the read of \<open>ARStep\<close> is out of bounds and the
  key-on write is \<open>None\<close>.
\<close>

theorem key_on_rate_index_negative:
  "octave_trace \<noteq> None \<and>
   lookup (Regs (Slots (the octave_trace) ! 0)) 3 = Some 0x90 \<and>
   lookup (Samples (the octave_trace)) 0 = Some krs_Sample \<and>
   EG_rate 0x90 krs_Sample = - 16 \<and>
   sint (4 * ucast (AR krs_Sample) + word_of_int (EG_rate 0x90 krs_Sample) :: u32) = - 12 \<and>
   Get_RATE (ARStep (the octave_trace)) (word_of_int (EG_rate 0x90 krs_Sample)) (ucast (AR krs_Sample)) = None \<and>
   multipcm_w test_Statics (the octave_trace) 0 0x80 = None"
proof -
  from octave_trace_Some obtain smps where
    t: "octave_trace = Some (rom_chip\<lparr>ROM := krs_hdr @ replicate 6132 0xFF, Samples := smps,
       Address := 4, Slots := (Slots test_chip)[0 := octave_SLOT]\<rparr>)"
    and s: "lookup smps 0 = Some krs_Sample" by blast
  let ?c = "rom_chip\<lparr>ROM := krs_hdr @ replicate 6132 0xFF, Samples := smps,
       Address := 4, Slots := (Slots test_chip)[0 := octave_SLOT]\<rparr>"
  have idx: "sint (4 * ucast (AR krs_Sample) + word_of_int (EG_rate 0x90 krs_Sample) :: u32) = - 12"
    by (simp add: EG_rate_octave krs_Sample_simps)
  have g: "Get_RATE (ARStep ?c) (word_of_int (EG_rate 0x90 krs_Sample)) (ucast (AR krs_Sample)) = None"
    by (simp add: EG_rate_octave krs_Sample_simps Get_RATE_octave)
  have k: "WriteSlot test_Statics ?c octave_SLOT 4 0x80 = None"
    using s by (intro WriteSlot_key_on_octave [where ?r1.0 = 0])
      (simp_all add: octave_SLOT_def zero_SLOT_def lookup_def)
  have "multipcm_w test_Statics ?c 0 0x80 = None"
    using k by (simp add: multipcm_w_def write_CurSlot_def rom_chip_more Slots_test_chip lookup_def)
  moreover have "lookup (Regs (Slots ?c ! 0)) 3 = Some 0x90"
    by (simp add: Slots_test_chip octave_SLOT_def lookup_def)
  ultimately show ?thesis using s idx g unfolding t by (simp add: EG_rate_octave)
qed

subsection \<open>Rendering\<close>

lemma EG_Update_others:
  assumes "EG_Update S s = Some (s', g)"
  shows "PLFO s' = PLFO s \<and> ALFO s' = ALFO s \<and> offset s' = offset s \<and> Regs s' = Regs s"
  using assms
  by (cases "EG_state (EG s)") (auto simp: EG_Update_def Let_def split: if_splits)

lemma EG_Update_PLFO:
  "EG_Update S (s\<lparr>PLFO := x\<rparr>) = map_option (\<lambda>(s', g). (s'\<lparr>PLFO := x\<rparr>, g)) (EG_Update S s)"
  by (cases "EG_state (EG s)") (simp_all add: EG_Update_def Let_def map_option_case split: option.splits)

lemma EG_Update_ALFO:
  "EG_Update S (s\<lparr>ALFO := x\<rparr>) = map_option (\<lambda>(s', g). (s'\<lparr>ALFO := x\<rparr>, g)) (EG_Update S s)"
  by (cases "EG_state (EG s)") (simp_all add: EG_Update_def Let_def map_option_case split: option.splits)

lemma PLFO_Step_phase:
  "PLFO_Step lfo = Some (lfo', p) \<Longrightarrow> phase lfo' = phase lfo + ucast (phase_step lfo)"
  by (auto simp: PLFO_Step_def Let_def split: bind_splits)

lemma ALFO_Step_phase:
  "ALFO_Step lfo = Some (lfo', p) \<Longrightarrow> phase lfo' = phase lfo + ucast (phase_step lfo)"
  by (auto simp: ALFO_Step_def Let_def split: bind_splits)

lemma voice_offset_fields:
  "PLFO (voice_offset smp slot stp adr csample) = PLFO slot"
  "ALFO (voice_offset smp slot stp adr csample) = ALFO slot"
  "Regs (voice_offset smp slot stp adr csample) = Regs slot"
  "EG (voice_offset smp slot stp adr csample) = EG slot"
  "offset (voice_offset smp slot stp adr csample) =
     (let ofs = offset slot + stp
      in if ofs \<ge> push_bit SHIFT (End smp) then push_bit SHIFT (Loop smp) else ofs)"
  by (simp_all add: voice_offset_def Let_def)

lemma voice_offset_PLFO:
  "voice_offset smp (slot\<lparr>PLFO := x\<rparr>) stp adr csample = (voice_offset smp slot stp adr csample)\<lparr>PLFO := x\<rparr>"
  by (simp add: voice_offset_def Let_def)

lemma voice_offset_ALFO:
  "voice_offset smp (slot\<lparr>ALFO := x\<rparr>) stp adr csample = (voice_offset smp slot stp adr csample)\<lparr>ALFO := x\<rparr>"
  by (simp add: voice_offset_def Let_def)

lemma Sample_of_LFO:
  "Sample_of c (slot\<lparr>PLFO := x\<rparr>) = Sample_of c slot"
  "Sample_of c (slot\<lparr>ALFO := x\<rparr>) = Sample_of c slot"
  by (simp_all add: Sample_of_def)

lemma voice_advance_PLFO:
  assumes va: "voice_advance c slot adr csample = Some slot'"
    and r6: "lookup (Regs slot) 6 = Some r6"
    and smp: "Sample_of c slot = Some smp"
  shows "ALFO slot' = ALFO slot \<and> Regs slot' = Regs slot \<and> EG slot' = EG slot \<and>
    (if r6 AND 7 \<noteq> 0
     then \<exists>p. PLFO_Step (PLFO slot) = Some (PLFO slot', p) \<and>
            offset slot' =
              (let ofs = offset slot + drop_bit SHIFT (step slot * word_of_int p)
               in if ofs \<ge> push_bit SHIFT (End smp) then push_bit SHIFT (Loop smp) else ofs)
     else PLFO slot' = PLFO slot \<and>
            offset slot' =
              (let ofs = offset slot + step slot
               in if ofs \<ge> push_bit SHIFT (End smp) then push_bit SHIFT (Loop smp) else ofs))"
proof (cases "r6 AND 7 = 0")
  case True
  then have "slot' = voice_offset smp slot (step slot) adr csample"
    using va r6 smp by (simp add: voice_advance_def)
  then show ?thesis using True by (simp add: voice_offset_fields)
next
  case False
  from va r6 smp False obtain lfo p where
    pl: "PLFO_Step (PLFO slot) = Some (lfo, p)"
    and s: "slot' = voice_offset smp (slot\<lparr>PLFO := lfo\<rparr>)
                      (drop_bit SHIFT (step slot * word_of_int p)) adr csample"
    by (auto simp: voice_advance_def Sample_of_LFO split: bind_splits)
  have "PLFO_Step (PLFO slot) = Some (PLFO slot', p) \<and>
            offset slot' =
              (let ofs = offset slot + drop_bit SHIFT (step slot * word_of_int p)
               in if ofs \<ge> push_bit SHIFT (End smp) then push_bit SHIFT (Loop smp) else ofs)"
    using pl s by (simp add: voice_offset_fields)
  then have "\<exists>p. PLFO_Step (PLFO slot) = Some (PLFO slot', p) \<and>
            offset slot' =
              (let ofs = offset slot + drop_bit SHIFT (step slot * word_of_int p)
               in if ofs \<ge> push_bit SHIFT (End smp) then push_bit SHIFT (Loop smp) else ofs)"
    by (rule exI)
  then show ?thesis using False s by (simp add: voice_offset_fields)
qed

lemma voice_advance_Sample:
  "voice_advance c slot adr csample = Some slot' \<Longrightarrow> \<exists>smp. Sample_of c slot = Some smp"
  by (auto simp: voice_advance_def Let_def Sample_of_LFO split: bind_splits if_splits)

lemma voice_advance_Regs:
  "voice_advance c slot adr csample = Some slot' \<Longrightarrow> Regs slot' = Regs slot"
  by (auto simp: voice_advance_def Let_def voice_offset_fields split: bind_splits if_splits)

lemma voice_advance_PLFO_indep:
  assumes va: "voice_advance c slot adr csample = Some slot'"
    and r6: "lookup (Regs slot) 6 = Some r6" and z: "r6 AND 7 = 0"
  shows "voice_advance c (slot\<lparr>PLFO := x\<rparr>) adr csample = Some (slot'\<lparr>PLFO := x\<rparr>)"
  using va r6 z
  by (auto simp: voice_advance_def Sample_of_LFO voice_offset_PLFO split: bind_splits)

lemma voice_advance_ALFO_indep:
  assumes va: "voice_advance c slot adr csample = Some slot'"
  shows "voice_advance c (slot\<lparr>ALFO := x\<rparr>) adr csample = Some (slot'\<lparr>ALFO := x\<rparr>)"
proof -
  from va obtain r6 where r6: "lookup (Regs slot) 6 = Some r6"
    by (auto simp: voice_advance_def Let_def split: bind_splits)
  show ?thesis
  proof (cases "r6 AND 7 = 0")
    case True
    then show ?thesis using va r6
      by (auto simp: voice_advance_def Sample_of_LFO voice_offset_ALFO split: bind_splits)
  next
    case False
    then show ?thesis using va r6
      by (auto simp: voice_advance_def Sample_of_LFO voice_offset_ALFO voice_offset_PLFO
            split: bind_splits)
  qed
qed

lemma voice_sample_PLFO_indep: "voice_sample c (slot\<lparr>PLFO := x\<rparr>) = voice_sample c slot"
  by (simp add: voice_sample_def)

lemma voice_sample_ALFO_indep: "voice_sample c (slot\<lparr>ALFO := x\<rparr>) = voice_sample c slot"
  by (simp add: voice_sample_def)

lemma voice_output_PLFO_indep:
  assumes "voice_output S slot vol sample smpl smpr = Some (slot', l, r)"
  shows "voice_output S (slot\<lparr>PLFO := x\<rparr>) vol sample smpl smpr = Some (slot'\<lparr>PLFO := x\<rparr>, l, r)"
  using assms unfolding voice_output_def Let_def
  by (cases "the (lookup (Regs slot) 7) AND 7 = 0")
     (auto split: bind_splits simp: EG_Update_PLFO EG_Update_ALFO)

lemma voice_output_tremolo:
  assumes vo: "voice_output S slot vol sample smpl smpr = Some (slot', l, r)"
    and r7: "lookup (Regs slot) 7 = Some r7"
  shows "PLFO slot' = PLFO slot \<and> offset slot' = offset slot \<and>
    (\<exists>g lp rp.
       lookup (LPANTABLE S) (uint vol) = Some lp \<and>
       lookup (RPANTABLE S) (uint vol) = Some rp \<and>
       (if r7 AND 7 \<noteq> 0
        then \<exists>a. ALFO_Step (ALFO slot) = Some (ALFO slot', a) \<and>
               EG_Update S (slot\<lparr>ALFO := ALFO slot'\<rparr>) = Some (slot', g) \<and>
               l = s32 (smpl + drop_bit SHIFT (s32 (lp * drop_bit 10 (s32 (drop_bit SHIFT (s32 (sample * a)) * g))))) \<and>
               r = s32 (smpr + drop_bit SHIFT (s32 (rp * drop_bit 10 (s32 (drop_bit SHIFT (s32 (sample * a)) * g)))))
        else ALFO slot' = ALFO slot \<and>
             EG_Update S slot = Some (slot', g) \<and>
             l = s32 (smpl + drop_bit SHIFT (s32 (lp * drop_bit 10 (s32 (sample * g))))) \<and>
             r = s32 (smpr + drop_bit SHIFT (s32 (rp * drop_bit 10 (s32 (sample * g))))) \<and>
             voice_output S (slot\<lparr>ALFO := y\<rparr>) vol sample smpl smpr = Some (slot'\<lparr>ALFO := y\<rparr>, l, r)))"
proof (cases "r7 AND 7 = 0")
  case True
  from vo r7 True obtain g lp rp where
    eg: "EG_Update S slot = Some (slot', g)"
    and lp: "lookup (LPANTABLE S) (uint vol) = Some lp"
    and rp: "lookup (RPANTABLE S) (uint vol) = Some rp"
    and l: "l = s32 (smpl + drop_bit SHIFT (s32 (lp * drop_bit 10 (s32 (sample * g)))))"
    and r: "r = s32 (smpr + drop_bit SHIFT (s32 (rp * drop_bit 10 (s32 (sample * g)))))"
    unfolding voice_output_def Let_def by (auto split: bind_splits)
  have i: "voice_output S (slot\<lparr>ALFO := y\<rparr>) vol sample smpl smpr = Some (slot'\<lparr>ALFO := y\<rparr>, l, r)"
    using r7 True eg lp rp l r unfolding voice_output_def Let_def
    by (simp add: EG_Update_ALFO)
  have "lookup (LPANTABLE S) (uint vol) = Some lp \<and>
       lookup (RPANTABLE S) (uint vol) = Some rp \<and>
       (ALFO slot' = ALFO slot \<and>
             EG_Update S slot = Some (slot', g) \<and>
             l = s32 (smpl + drop_bit SHIFT (s32 (lp * drop_bit 10 (s32 (sample * g))))) \<and>
             r = s32 (smpr + drop_bit SHIFT (s32 (rp * drop_bit 10 (s32 (sample * g))))) \<and>
             voice_output S (slot\<lparr>ALFO := y\<rparr>) vol sample smpl smpr = Some (slot'\<lparr>ALFO := y\<rparr>, l, r))"
    using EG_Update_others [OF eg] eg lp rp l r i by simp
  then have "\<exists>g lp rp. lookup (LPANTABLE S) (uint vol) = Some lp \<and>
       lookup (RPANTABLE S) (uint vol) = Some rp \<and>
       (ALFO slot' = ALFO slot \<and>
             EG_Update S slot = Some (slot', g) \<and>
             l = s32 (smpl + drop_bit SHIFT (s32 (lp * drop_bit 10 (s32 (sample * g))))) \<and>
             r = s32 (smpr + drop_bit SHIFT (s32 (rp * drop_bit 10 (s32 (sample * g))))) \<and>
             voice_output S (slot\<lparr>ALFO := y\<rparr>) vol sample smpl smpr = Some (slot'\<lparr>ALFO := y\<rparr>, l, r))"
    by blast
  then show ?thesis using True EG_Update_others [OF eg] by (simp only: simp_thms if_False)
next
  case False
  from vo r7 False obtain lfo a g lp rp where
    al: "ALFO_Step (ALFO slot) = Some (lfo, a)"
    and eg: "EG_Update S (slot\<lparr>ALFO := lfo\<rparr>) = Some (slot', g)"
    and lp: "lookup (LPANTABLE S) (uint vol) = Some lp"
    and rp: "lookup (RPANTABLE S) (uint vol) = Some rp"
    and l: "l = s32 (smpl + drop_bit SHIFT (s32 (lp * drop_bit 10 (s32 (drop_bit SHIFT (s32 (sample * a)) * g)))))"
    and r: "r = s32 (smpr + drop_bit SHIFT (s32 (rp * drop_bit 10 (s32 (drop_bit SHIFT (s32 (sample * a)) * g)))))"
    unfolding voice_output_def Let_def by (auto split: bind_splits)
  from EG_Update_others [OF eg] have o: "PLFO slot' = PLFO slot" "ALFO slot' = lfo"
    "offset slot' = offset slot" by simp_all
  have "lookup (LPANTABLE S) (uint vol) = Some lp \<and>
       lookup (RPANTABLE S) (uint vol) = Some rp \<and>
       (\<exists>a. ALFO_Step (ALFO slot) = Some (ALFO slot', a) \<and>
               EG_Update S (slot\<lparr>ALFO := ALFO slot'\<rparr>) = Some (slot', g) \<and>
               l = s32 (smpl + drop_bit SHIFT (s32 (lp * drop_bit 10 (s32 (drop_bit SHIFT (s32 (sample * a)) * g))))) \<and>
               r = s32 (smpr + drop_bit SHIFT (s32 (rp * drop_bit 10 (s32 (drop_bit SHIFT (s32 (sample * a)) * g))))))"
    using al eg o lp rp l r by blast
  then have "\<exists>g lp rp. lookup (LPANTABLE S) (uint vol) = Some lp \<and>
       lookup (RPANTABLE S) (uint vol) = Some rp \<and>
       (\<exists>a. ALFO_Step (ALFO slot) = Some (ALFO slot', a) \<and>
               EG_Update S (slot\<lparr>ALFO := ALFO slot'\<rparr>) = Some (slot', g) \<and>
               l = s32 (smpl + drop_bit SHIFT (s32 (lp * drop_bit 10 (s32 (drop_bit SHIFT (s32 (sample * a)) * g))))) \<and>
               r = s32 (smpr + drop_bit SHIFT (s32 (rp * drop_bit 10 (s32 (drop_bit SHIFT (s32 (sample * a)) * g))))))"
    by blast
  then show ?thesis using False o by (simp only: simp_thms if_True)
qed

lemma voice_sample_vol:
  "voice_sample c slot = Some (vol, adr, csample, sample) \<Longrightarrow>
   vol = drop_bit SHIFT (TL slot) OR push_bit 7 (Pan slot)"
  by (auto simp: voice_sample_def Let_def split: bind_splits)

lemma voice_render_mix:
  assumes "voice_render S c slot smpl smpr = Some (slot', l, r)"
  shows "\<exists>sample lp rp.
     lookup (LPANTABLE S) (uint (drop_bit SHIFT (TL slot) OR push_bit 7 (Pan slot))) = Some lp \<and>
     lookup (RPANTABLE S) (uint (drop_bit SHIFT (TL slot) OR push_bit 7 (Pan slot))) = Some rp \<and>
     l = s32 (smpl + drop_bit SHIFT (s32 (lp * sample))) \<and>
     r = s32 (smpr + drop_bit SHIFT (s32 (rp * sample)))"
proof -
  from assms obtain vol adr csample sample s1 where
    vs: "voice_sample c slot = Some (vol, adr, csample, sample)"
    and vo: "voice_output S s1 vol sample smpl smpr = Some (slot', l, r)"
    by (auto simp: voice_render_def split: bind_splits)
  from vs have vol: "vol = drop_bit SHIFT (TL slot) OR push_bit 7 (Pan slot)"
    by (auto simp: voice_sample_def Let_def split: bind_splits)
  from vo obtain sample' lp rp where
    "lookup (LPANTABLE S) (uint vol) = Some lp" "lookup (RPANTABLE S) (uint vol) = Some rp"
    "l = s32 (smpl + drop_bit SHIFT (s32 (lp * sample')))"
    "r = s32 (smpr + drop_bit SHIFT (s32 (rp * sample')))"
    by (auto simp: voice_output_def Let_def split: bind_splits if_splits)
  then show ?thesis unfolding vol by blast
qed

lemma Statics_tables:
  "LPANTABLE (fst (device_start_multipcm fl)) = map (\<lambda>i. fst (pan_entry i)) [0..<0x800]"
  "RPANTABLE (fst (device_start_multipcm fl)) = map (\<lambda>i. snd (pan_entry i)) [0..<0x800]"
  "lin2expvol (fst (device_start_multipcm fl)) = map (fl_lin2expvol fl) [0..<0x400]"
  "TLSteps (fst (device_start_multipcm fl)) = map (fl_TLSteps fl) [0..<2]"
  "PLFO_TRI (fst (device_start_multipcm fl)) = map (\<lambda>i. PLFO_TRI_entry (int i)) [0..<256]"
  "ALFO_TRI (fst (device_start_multipcm fl)) = map (\<lambda>i. ALFO_TRI_entry (int i)) [0..<256]"
  "PSCALES (fst (device_start_multipcm fl)) = map (\<lambda>s. map (fl_PSCALES fl s) [0..<256]) [0..<8]"
  "ASCALES (fst (device_start_multipcm fl)) = map (\<lambda>s. map (fl_ASCALES fl s) [0..<256]) [0..<8]"
  by (simp_all add: device_start_multipcm_def Let_def LFO_Init_def)

lemma FIX_zero: "FIX 0 = 0"
  by (simp add: FIX_def)

lemma pan_entry_centre: "t < 128 \<Longrightarrow> fst (pan_entry t) = snd (pan_entry t)"
  by (simp add: pan_entry_def Let_def drop_bit_eq_div)

lemma pan_entry_mute: "t < 128 \<Longrightarrow> pan_entry (1024 + t) = (0, 0)"
proof -
  assume "t < 128"
  then have "drop_bit 7 (1024 + t) = 8" by (simp add: drop_bit_eq_div)
  then show ?thesis by (simp add: pan_entry_def Let_def FIX_zero)
qed

lemma low7_and: "(w :: u32) \<le> 0x7f \<Longrightarrow> w AND 0x400 = 0"
proof -
  assume "w \<le> 0x7f"
  then have "uint w < 2 ^ 7" by (simp add: word_le_def)
  then have "w AND mask 7 = w" by (simp only: mask_eq_iff)
  then have "w AND 0x400 = (w AND mask 7) AND 0x400" by simp
  also have "\<dots> = w AND (mask 7 AND 0x400)" by (simp only: and.assoc)
  also have "(mask 7 AND 0x400 :: u32) = 0" by (simp add: mask_eq_exp_minus_1)
  finally show ?thesis by simp
qed

lemma low7_or: "(w :: u32) \<le> 0x7f \<Longrightarrow> unat (w OR 0x400) = 1024 + unat w"
proof -
  assume w: "w \<le> 0x7f"
  then have "w AND 0x400 = 0" by (rule low7_and)
  then have "w OR 0x400 = w + 0x400" by (simp add: disjunctive_add_eq_or)
  moreover have "unat w \<le> 127" using w by (simp add: word_le_nat_alt)
  ultimately show ?thesis by (simp add: unat_word_ariths)
qed

lemma pan_lookup_centre:
  assumes "(w :: u32) \<le> 0x7f"
  shows "lookup (LPANTABLE (fst (device_start_multipcm fl))) (uint (w OR push_bit 7 0))
           = Some (fst (pan_entry (unat w)))"
    and "lookup (RPANTABLE (fst (device_start_multipcm fl))) (uint (w OR push_bit 7 0))
           = Some (fst (pan_entry (unat w)))"
proof -
  have u: "unat w < 128" using assms by (simp add: word_le_nat_alt)
  have i: "uint w < 2048" using assms by (simp add: word_le_def)
  have n: "nat (uint w) = unat w" by simp
  show "lookup (LPANTABLE (fst (device_start_multipcm fl))) (uint (w OR push_bit 7 0))
           = Some (fst (pan_entry (unat w)))"
    using i u by (simp add: lookup_def Statics_tables n)
  show "lookup (RPANTABLE (fst (device_start_multipcm fl))) (uint (w OR push_bit 7 0))
           = Some (fst (pan_entry (unat w)))"
    using i u by (simp add: lookup_def Statics_tables n pan_entry_centre)
qed

lemma pan_lookup_mute:
  assumes "(w :: u32) \<le> 0x7f"
  shows "lookup (LPANTABLE (fst (device_start_multipcm fl))) (uint (w OR push_bit 7 8)) = Some 0"
    and "lookup (RPANTABLE (fst (device_start_multipcm fl))) (uint (w OR push_bit 7 8)) = Some 0"
proof -
  have u: "unat w < 128" using assms by (simp add: word_le_nat_alt)
  have o: "unat (w OR 0x400) = 1024 + unat w" using assms by (rule low7_or)
  then have n: "nat (uint (w OR 0x400)) = 1024 + unat w" by simp
  have "uint w \<le> 127" using assms by (simp add: word_le_def)
  then have "int (unat (w OR 0x400)) < 2048" using o by simp
  then have i: "uint (w OR 0x400) < 2048" by (simp only: uint_nat)
  show "lookup (LPANTABLE (fst (device_start_multipcm fl))) (uint (w OR push_bit 7 8)) = Some 0"
    using i u by (simp add: lookup_def Statics_tables o pan_entry_mute)
  show "lookup (RPANTABLE (fst (device_start_multipcm fl))) (uint (w OR push_bit 7 8)) = Some 0"
    using i u by (simp add: lookup_def Statics_tables o pan_entry_mute)
qed

text \<open>
  C7.  For every \<open>TL\<close> value in \<open>0 .. 0x7f\<close>, in the tables that \<open>device_start_multipcm\<close>
  builds: the left and right entries at index \<open>(0 << 7) | TL\<close> are equal, and those at
  \<open>(8 << 7) | TL\<close> are both 0.  Hence in a render step a voice with \<open>Pan = 0\<close> adds one
  and the same value \<open>d\<close> to both accumulators, and a voice with \<open>Pan = 8\<close> adds 0 to both.
\<close>

theorem pan_symmetry:
  assumes tlv: "tlv \<le> 0x7f"
  shows "lookup (LPANTABLE (fst (device_start_multipcm fl))) (uint (tlv OR push_bit 7 0))
           = lookup (RPANTABLE (fst (device_start_multipcm fl))) (uint (tlv OR push_bit 7 0)) \<and>
         lookup (LPANTABLE (fst (device_start_multipcm fl))) (uint (tlv OR push_bit 7 0)) \<noteq> None \<and>
         lookup (LPANTABLE (fst (device_start_multipcm fl))) (uint (tlv OR push_bit 7 8)) = Some 0 \<and>
         lookup (RPANTABLE (fst (device_start_multipcm fl))) (uint (tlv OR push_bit 7 8)) = Some 0 \<and>
         (drop_bit SHIFT (TL slot) = tlv \<and>
          voice_render (fst (device_start_multipcm fl)) c slot smpl smpr = Some (slot', l, r) \<longrightarrow>
            (if Pan slot = 0 then \<exists>d. l = s32 (smpl + d) \<and> r = s32 (smpr + d)
             else if Pan slot = 0x8 then l = s32 smpl \<and> r = s32 smpr
             else True))"
proof -
  let ?S = "fst (device_start_multipcm fl)"
  have r: "if Pan slot = 0 then \<exists>d. l = s32 (smpl + d) \<and> r = s32 (smpr + d)
             else if Pan slot = 0x8 then l = s32 smpl \<and> r = s32 smpr
             else True"
    if t: "drop_bit SHIFT (TL slot) = tlv"
      and v: "voice_render ?S c slot smpl smpr = Some (slot', l, r)"
  proof -
    from voice_render_mix [OF v] t obtain sample lp rp where
      lp: "lookup (LPANTABLE ?S) (uint (tlv OR push_bit 7 (Pan slot))) = Some lp"
      and rp: "lookup (RPANTABLE ?S) (uint (tlv OR push_bit 7 (Pan slot))) = Some rp"
      and l: "l = s32 (smpl + drop_bit SHIFT (s32 (lp * sample)))"
      and r: "r = s32 (smpr + drop_bit SHIFT (s32 (rp * sample)))" by blast
    show ?thesis
    proof (cases "Pan slot = 0")
      case True
      with lp rp have "lp = rp" using pan_lookup_centre [OF tlv, of fl] by simp
      with l r True show ?thesis by auto
    next
      case False
      show ?thesis
      proof (cases "Pan slot = 0x8")
        case True
        with lp rp have "lp = 0" "rp = 0" using pan_lookup_mute [OF tlv, of fl] by simp_all
        with l r True show ?thesis by (simp add: s32_def)
      next
        case F: False
        with False show ?thesis by simp
      qed
    qed
  qed
  show ?thesis
    using pan_lookup_centre [OF tlv, of fl] pan_lookup_mute [OF tlv, of fl] r by simp
qed

lemma WriteSlot_reg6: "WriteSlot test_Statics rom_chip keyed_SLOT 6 0x08 = Some lfo_SLOT"
  by (subst WriteSlot.simps)
     (simp add: keyed_SLOT_def zero_SLOT_def lookup_def LFO_ComputeStep_def Let_def
        test_Statics_def Statics_tables rom_chip_more test_chip_tables lfo_SLOT_def zero_LFO_def)

lemma EG_Update_idle:
  assumes "EG slot = zero_EG\<lparr>EG_DL := 0xf\<rparr>"
  shows "EG_Update test_Statics slot = Some (slot, 0)"
proof -
  have "slot\<lparr>EG := EG slot\<rparr> = slot" by simp
  then show ?thesis using assms
    by (simp add: EG_Update_def Let_def zero_EG_def s32_def lookup_def test_Statics_def
          Statics_tables test_Float_def)
qed

lemma csample_FF: "signed_take_bit 15 (NOT (mask 8) :: int) = - 256"
proof -
  have "push_bit 8 (- 1 :: int) = - 256" by (simp only: push_bit_eq_mult) simp
  then have "NOT (mask 8 :: int) = - 256" by simp
  then show ?thesis by simp
qed

lemma voice_render_idle:
  assumes "slot = keyed_SLOT \<or> slot = lfo_SLOT"
  shows "voice_render test_Statics rom_chip slot 0 0 = Some (slot, 0, 0)"
proof -
  have f: "TL slot = 0" "Pan slot = 0" "offset slot = 0" "Base slot = 0" "Prev slot = 0"
    "step slot = 0" "DstTL slot = 0" "Sample slot = Some 0" "EG slot = zero_EG\<lparr>EG_DL := 0xf\<rparr>"
    "lookup (Regs slot) 7 = Some 0"
    using assms by (auto simp: keyed_SLOT_def lfo_SLOT_def zero_SLOT_def lookup_def)
  obtain r6 where r6: "lookup (Regs slot) 6 = Some r6" "r6 AND 7 = 0"
    using assms by (auto simp: keyed_SLOT_def lfo_SLOT_def zero_SLOT_def lookup_def)
  have vs: "voice_sample rom_chip slot = Some (0, 0, - 256, 0)"
    by (simp add: voice_sample_def f rom_chip_simps rom_chip_more lookup_def s32_def csample_FF)
  have smp: "Sample_of rom_chip slot = Some zero_Sample"
    by (simp add: Sample_of_def f rom_chip_simps lookup_def)
  have "voice_offset zero_Sample slot 0 0 (- 256) = slot\<lparr>offset := 0\<rparr>"
    by (simp add: voice_offset_def f zero_Sample_def)
  also have "\<dots> = slot" using f(3) by (metis SLOT_t.surjective SLOT_t.update_convs(6))
  finally have vof: "voice_offset zero_Sample slot 0 0 (- 256) = slot" .
  have va: "voice_advance rom_chip slot 0 (- 256) = Some slot"
    by (simp add: voice_advance_def f r6 smp vof)
  have lp: "lookup (LPANTABLE test_Statics) 0 = Some (fst (pan_entry 0))"
    and rp: "lookup (RPANTABLE test_Statics) 0 = Some (snd (pan_entry 0))"
    by (simp_all add: lookup_def test_Statics_def Statics_tables)
  have vo: "voice_output test_Statics slot 0 0 0 0 = Some (slot, 0, 0)"
    by (simp add: voice_output_def f EG_Update_idle lp rp s32_def)
  show ?thesis by (simp add: voice_render_def vs va vo)
qed

theorem pan_symmetry_witness:
  "(0 :: u32) \<le> 0x7f \<and> drop_bit SHIFT (TL keyed_SLOT) = 0 \<and> Pan keyed_SLOT = 0 \<and>
   voice_render (fst (device_start_multipcm test_Float)) rom_chip keyed_SLOT 0 0
     = Some (keyed_SLOT, 0, 0) \<and>
   lookup (LPANTABLE (fst (device_start_multipcm test_Float))) (uint ((0 :: u32) OR push_bit 7 0))
     = lookup (RPANTABLE (fst (device_start_multipcm test_Float))) (uint ((0 :: u32) OR push_bit 7 0)) \<and>
   lookup (LPANTABLE (fst (device_start_multipcm test_Float))) (uint ((0 :: u32) OR push_bit 7 8)) = Some 0 \<and>
   lookup (RPANTABLE (fst (device_start_multipcm test_Float))) (uint ((0 :: u32) OR push_bit 7 8)) = Some 0 \<and>
   (\<exists>d. (0 :: int) = s32 (0 + d) \<and> (0 :: int) = s32 (0 + d))"
proof -
  have v: "voice_render (fst (device_start_multipcm test_Float)) rom_chip keyed_SLOT 0 0
     = Some (keyed_SLOT, 0, 0)"
    using voice_render_idle [of keyed_SLOT] by (simp add: test_Statics_def)
  have t: "drop_bit SHIFT (TL keyed_SLOT) = 0" "Pan keyed_SLOT = 0"
    by (simp_all add: keyed_SLOT_def zero_SLOT_def)
  show ?thesis
    using pan_symmetry [of 0 test_Float keyed_SLOT rom_chip 0 0 keyed_SLOT 0 0] v t
    by simp
qed

text \<open>The voice with vibrato and tremolo: the writes of \<open>vib_trace\<close> return and leave the
  chip \<open>vib_chip\<close>, and two render steps of its voice 0 give \<open>vib_SLOT\<close>, then
  \<open>vib_next_SLOT\<close>.\<close>

lemma pan_entry_0: "pan_entry 0 = (1024, 1024)"
  by (simp add: pan_entry_def FIX_def Let_def)

lemma vib_chip_simps:
  "ROM vib_chip = vib_hdr @ replicate 6132 0xFF" "ROMMask vib_chip = 0x1FFF"
  "Samples vib_chip = vib_Sample # replicate 511 ff_Sample"
  by (simp_all add: vib_chip_def rom_chip_more)

lemma length_vib_hdr: "length vib_hdr = 12"
  by (simp add: vib_hdr_def)

lemma parse_vib_hdr: "parse_Sample (vib_hdr @ xs) 0 = Some vib_Sample"
  by (simp add: parse_Sample_def lookup_def Let_def vib_hdr_def vib_Sample_def)

lemma parse_Sample_ff:
  assumes "12 * k + 12 \<le> length rom" "\<forall>j < 12. rom ! (12 * k + j) = 0xFF"
  shows "parse_Sample rom k = Some ff_Sample"
proof -
  have l: "lookup rom (int (k * 12) + int j) = Some 0xFF" if "j < 12" for j
  proof -
    have e: "int (k * 12) + int j = int (12 * k + j)" by simp
    have "12 * k + j < length rom" using assms(1) that by simp
    then have "lookup rom (int (12 * k + j)) = Some (rom ! (12 * k + j))"
      unfolding lookup_def by (simp only: of_nat_less_iff of_nat_0_le_iff nat_int simp_thms if_True)
    then show ?thesis using assms(2) that unfolding e by simp
  qed
  have "lookup rom (int (k * 12)) = Some 0xFF" using l [of 0] by simp
  moreover have "lookup rom (int (k * 12) + 1) = Some 0xFF" using l [of 1] by simp
  moreover have "lookup rom (int (k * 12) + 2) = Some 0xFF" using l [of 2] by simp
  moreover have "lookup rom (int (k * 12) + 3) = Some 0xFF" using l [of 3] by simp
  moreover have "lookup rom (int (k * 12) + 4) = Some 0xFF" using l [of 4] by simp
  moreover have "lookup rom (int (k * 12) + 5) = Some 0xFF" using l [of 5] by simp
  moreover have "lookup rom (int (k * 12) + 6) = Some 0xFF" using l [of 6] by simp
  moreover have "lookup rom (int (k * 12) + 7) = Some 0xFF" using l [of 7] by simp
  moreover have "lookup rom (int (k * 12) + 8) = Some 0xFF" using l [of 8] by simp
  moreover have "lookup rom (int (k * 12) + 9) = Some 0xFF" using l [of 9] by simp
  moreover have "lookup rom (int (k * 12) + 10) = Some 0xFF" using l [of 10] by simp
  moreover have "lookup rom (int (k * 12) + 11) = Some 0xFF" using l [of 11] by simp
  ultimately show ?thesis
    by (simp add: parse_Sample_def Let_def ff_Sample_def)
qed

lemma write_rom_vib_hdr:
  "multipcm_write_rom rom_chip 0 12 vib_hdr
     = Some (rom_chip\<lparr>ROM := vib_hdr @ replicate 6132 0xFF,
                      Samples := vib_Sample # replicate 511 ff_Sample\<rparr>)"
proof -
  let ?rom = "vib_hdr @ replicate 6132 0xFF"
  have len: "0x1800 \<le> length ?rom" by (simp add: length_vib_hdr)
  have smps: "length (Samples rom_chip) = 0x200" by (simp add: rom_chip_simps)
  from rebuild_512 [OF len smps] obtain smps' where
    r: "rebuild_Samples ?rom 0 512 (Samples rom_chip) = Some smps'"
    and m: "map Some smps' = map (parse_Sample (take 0x1800 ?rom)) [0..<0x200]" by blast
  from m have l: "length smps' = 0x200" by (metis length_map length_upt diff_zero)
  have "smps' = vib_Sample # replicate 511 ff_Sample"
  proof (rule nth_equalityI)
    show "length smps' = length (vib_Sample # replicate 511 ff_Sample)" using l by simp
  next
    fix i assume "i < length smps'"
    then have i: "i < 0x200" using l by simp
    note p = rebuild_512_nth [OF r len smps i]
    show "smps' ! i = (vib_Sample # replicate 511 ff_Sample) ! i"
    proof (cases "i = 0")
      case True
      then show ?thesis using p by (simp add: parse_vib_hdr)
    next
      case False
      have "parse_Sample ?rom i = Some ff_Sample"
      proof (rule parse_Sample_ff)
        show "12 * i + 12 \<le> length ?rom" using i by (simp add: length_vib_hdr)
        show "\<forall>j < 12. ?rom ! (12 * i + j) = 0xFF"
          using i False by (simp add: nth_append length_vib_hdr)
      qed
      then show ?thesis using p False i by (simp add: nth_Cons')
    qed
  qed
  then show ?thesis
    using r by (subst write_rom_char) (simp_all add: rom_chip_simps Let_def length_vib_hdr)
qed

lemma WriteSlot_vib_reg1:
  assumes "Samples c = vib_Sample # replicate 511 ff_Sample" "Rate c = Rate test_chip"
  shows "WriteSlot test_Statics c zero_SLOT (Suc 0) 0
     = Some (zero_SLOT\<lparr>Regs := [0, 0, 0, 0, 0, 0, 0x09, 0x01],
               PLFO := PLFO vib_keyed_SLOT, ALFO := ALFO vib_keyed_SLOT\<rparr>)"
proof -
  have a: "WriteSlot test_Statics c (zero_SLOT\<lparr>Regs := [0, 0, 0, 0, 0, 0, 0, 0]\<rparr>) 6 0x09
     = Some (zero_SLOT\<lparr>Regs := [0, 0, 0, 0, 0, 0, 0x09, 0],
               PLFO := PLFO vib_keyed_SLOT,
               ALFO := (ALFO vib_keyed_SLOT)\<lparr>scale := ASCALES test_Statics ! 0\<rparr>\<rparr>)"
    using assms(2)
    by (subst WriteSlot.simps)
       (simp add: zero_SLOT_def lookup_def LFO_ComputeStep_def Let_def test_Statics_def
          Statics_tables test_chip_tables vib_keyed_SLOT_def zero_LFO_def)
  have b: "WriteSlot test_Statics c (zero_SLOT\<lparr>Regs := [0, 0, 0, 0, 0, 0, 0x09, 0],
               PLFO := PLFO vib_keyed_SLOT,
               ALFO := (ALFO vib_keyed_SLOT)\<lparr>scale := ASCALES test_Statics ! 0\<rparr>\<rparr>) 7 0x01
     = Some (zero_SLOT\<lparr>Regs := [0, 0, 0, 0, 0, 0, 0x09, 0x01],
               PLFO := PLFO vib_keyed_SLOT, ALFO := ALFO vib_keyed_SLOT\<rparr>)"
    using assms(2)
    by (subst WriteSlot.simps)
       (simp add: zero_SLOT_def lookup_def LFO_ComputeStep_def Let_def test_Statics_def
          Statics_tables test_chip_tables vib_keyed_SLOT_def zero_LFO_def)
  have r: "Regs zero_SLOT = [0, 0, 0, 0, 0, 0, 0, 0]" by (simp add: zero_SLOT_def)
  have v: "LFOVIB vib_Sample = 0x09" "AM vib_Sample = 0x01" by (simp_all add: vib_Sample_def)
  show ?thesis
    using assms(1)
    by (subst WriteSlot.simps) (simp add: r lookup_def a b v)
qed

lemma WriteSlot_vib_reg3:
  assumes "FNS_Table c = FNS_Table test_chip" "Rate c = Rate test_chip"
  shows "WriteSlot test_Statics c (zero_SLOT\<lparr>Regs := [0, 0, 0, 0, 0, 0, 0x09, 0x01],
               PLFO := PLFO vib_keyed_SLOT, ALFO := ALFO vib_keyed_SLOT\<rparr>) 3 0x10
     = Some (zero_SLOT\<lparr>Regs := [0, 0, 0, 0x10, 0, 0, 0x09, 0x01], step := 0x1000,
               PLFO := PLFO vib_keyed_SLOT, ALFO := ALFO vib_keyed_SLOT\<rparr>)"
  using assms
  by (subst WriteSlot.simps) (simp add: zero_SLOT_def lookup_def test_chip_tables)

lemma Get_RATE_ends:
  "Get_RATE Steps rate 0 = lookup Steps 0" "Get_RATE Steps rate 0xf = lookup Steps 0x3f"
  by (simp_all add: Get_RATE_def)

lemma ARStep_last: "lookup (ARStep test_chip) 0x3f = Some 0x4000000"
  "lookup (DRStep test_chip) 0 = Some 0"
  by (simp_all add: lookup_def test_chip_def device_start_multipcm_def Let_def
        multipcm_set_mute_mask_def multipcm_set_bank_def test_Float_def)

lemma WriteSlot_vib_key_on:
  assumes "Samples c = vib_Sample # replicate 511 ff_Sample" "ARStep c = ARStep test_chip"
    "DRStep c = DRStep test_chip"
  shows "WriteSlot test_Statics c (zero_SLOT\<lparr>Regs := [0, 0, 0, 0x10, 0, 0, 0x09, 0x01], step := 0x1000,
               PLFO := PLFO vib_keyed_SLOT, ALFO := ALFO vib_keyed_SLOT\<rparr>) 4 0x80
     = Some vib_keyed_SLOT"
proof -
  have e: "EG_rate 0x10 vib_Sample = 0"
    by (simp add: EG_rate_def EG_octave_def vib_Sample_def s32_def)
  have v: "AR vib_Sample = 0xf" "DR1 vib_Sample = 0" "DR2 vib_Sample = 0" "RR vib_Sample = 0"
    "DL vib_Sample = 0" "Start vib_Sample = 0x10"
    by (simp_all add: vib_Sample_def)
  show ?thesis
    using assms
    by (subst WriteSlot.simps)
       (simp add: zero_SLOT_def lookup_def [of "x # xs" for x xs] Sample_of_def EG_Calc_def e v
          Get_RATE_ends ARStep_last vib_keyed_SLOT_def zero_EG_def)
qed

lemma vib_trace_Some: "vib_trace = Some vib_chip"
proof -
  show ?thesis
    by (simp add: vib_trace_def alloc_rom_test_chip write_rom_vib_hdr multipcm_w_def
          write_CurSlot_def rom_chip_more Slots_test_chip lookup_def
          WriteSlot_vib_reg1 WriteSlot_vib_reg3 WriteSlot_vib_key_on vib_chip_def)
qed

lemma vib_PLFO_Step3: "PLFO_Step (PLFO vib_keyed_SLOT) = Some ((PLFO vib_keyed_SLOT)\<lparr>phase := 3\<rparr>, 5120)"
  by (simp add: PLFO_Step_def vib_keyed_SLOT_def lookup_def test_Statics_def Statics_tables
       test_Float_def PLFO_TRI_entry_def s32_id)

lemma vib_ALFO_Step3: "ALFO_Step (ALFO vib_keyed_SLOT) = Some ((ALFO vib_keyed_SLOT)\<lparr>phase := 3\<rparr>, 3584)"
  by (simp add: ALFO_Step_def vib_keyed_SLOT_def lookup_def test_Statics_def Statics_tables
       test_Float_def ALFO_TRI_entry_def s32_id)

lemma vib_PLFO_Step6: "PLFO_Step (PLFO vib_SLOT) = Some ((PLFO vib_SLOT)\<lparr>phase := 6\<rparr>, 5120)"
  by (simp add: PLFO_Step_def vib_SLOT_def vib_keyed_SLOT_def lookup_def test_Statics_def Statics_tables
       test_Float_def PLFO_TRI_entry_def s32_id)

lemma vib_ALFO_Step6: "ALFO_Step (ALFO vib_SLOT) = Some ((ALFO vib_SLOT)\<lparr>phase := 6\<rparr>, 3584)"
  by (simp add: ALFO_Step_def vib_SLOT_def vib_keyed_SLOT_def lookup_def test_Statics_def Statics_tables
       test_Float_def ALFO_TRI_entry_def s32_id)

lemma Sample_of_vib:
  "Sample_of vib_chip vib_keyed_SLOT = Some vib_Sample"
  "Sample_of vib_chip vib_SLOT = Some vib_Sample"
  by (simp_all add: Sample_of_def vib_SLOT_def vib_keyed_SLOT_def vib_chip_simps lookup_def)

lemma vib_lookups:
  "lookup (LPANTABLE test_Statics) 0 = Some 1024"
  "lookup (RPANTABLE test_Statics) 0 = Some 1024"
  "lookup (lin2expvol test_Statics) 0x3ff = Some 0x3ff"
  by (simp_all add: lookup_def test_Statics_def Statics_tables pan_entry_0 test_Float_def)

lemma voice_sample_keyed: "voice_sample vib_chip vib_keyed_SLOT = Some (0, 0, - 256, 0)"
  by (simp add: voice_sample_def vib_keyed_SLOT_def zero_SLOT_def vib_chip_simps lookup_def
        length_vib_hdr nth_append s32_def csample_FF)

lemma voice_sample_vib: "voice_sample vib_chip vib_SLOT = Some (0, 1, - 256, - 256)"
  by (simp add: voice_sample_def vib_SLOT_def vib_keyed_SLOT_def zero_SLOT_def vib_chip_simps lookup_def
        length_vib_hdr nth_append s32_id csample_FF)

lemma vib_Regs:
  "lookup (Regs vib_keyed_SLOT) 6 = Some 0x09" "lookup (Regs vib_keyed_SLOT) 7 = Some 0x01"
  "lookup (Regs vib_SLOT) 6 = Some 0x09" "lookup (Regs vib_SLOT) 7 = Some 0x01"
  by (simp_all add: vib_SLOT_def vib_keyed_SLOT_def lookup_def)

lemma voice_advance_keyed:
  "voice_advance vib_chip vib_keyed_SLOT 0 (- 256)
     = Some (vib_keyed_SLOT\<lparr>offset := 0x1400, Prev := - 256,
               PLFO := (PLFO vib_keyed_SLOT)\<lparr>phase := 3\<rparr>\<rparr>)"
  by (simp add: voice_advance_def vib_Regs vib_PLFO_Step3 Sample_of_LFO Sample_of_vib
        voice_offset_def vib_Sample_def)
     (simp add: vib_keyed_SLOT_def zero_SLOT_def)

lemma voice_advance_vib:
  "voice_advance vib_chip vib_SLOT 1 (- 256)
     = Some (vib_SLOT\<lparr>offset := 0x2800, PLFO := (PLFO vib_SLOT)\<lparr>phase := 6\<rparr>\<rparr>)"
  by (simp add: voice_advance_def vib_Regs vib_PLFO_Step6 Sample_of_LFO Sample_of_vib
        voice_offset_def vib_Sample_def)
     (simp add: vib_SLOT_def vib_keyed_SLOT_def zero_SLOT_def)

lemma EG_Update_keyed:
  assumes "EG slot = EG vib_keyed_SLOT"
  shows "EG_Update test_Statics slot
     = Some (slot\<lparr>EG := (EG vib_keyed_SLOT)\<lparr>EG_volume := 0x3ff0000, EG_state := DECAY1\<rparr>\<rparr>, 0x3ff)"
  using assms
  by (simp add: EG_Update_def Let_def vib_keyed_SLOT_def zero_EG_def s32_id vib_lookups)

lemma EG_Update_vib:
  assumes "EG slot = EG vib_SLOT"
  shows "EG_Update test_Statics slot = Some (slot\<lparr>EG := EG vib_SLOT\<rparr>, 0x3ff)"
  using assms
  by (simp add: EG_Update_def Let_def vib_SLOT_def vib_keyed_SLOT_def zero_EG_def s32_id vib_lookups)

lemma voice_render_keyed:
  "voice_render test_Statics vib_chip vib_keyed_SLOT 0 0 = Some (vib_SLOT, 0, 0)"
proof -
  let ?s = "vib_keyed_SLOT\<lparr>offset := 0x1400, Prev := - 256,
               PLFO := (PLFO vib_keyed_SLOT)\<lparr>phase := 3\<rparr>\<rparr>"
  have eg: "EG_Update test_Statics (?s\<lparr>ALFO := (ALFO vib_keyed_SLOT)\<lparr>phase := 3\<rparr>\<rparr>)
      = Some (vib_SLOT, 0x3ff)"
    by (subst EG_Update_keyed) (simp_all add: vib_SLOT_def)
  have vo: "voice_output test_Statics ?s 0 0 0 0 = Some (vib_SLOT, 0, 0)"
    by (simp add: voice_output_def vib_Regs vib_ALFO_Step3 eg vib_lookups s32_def)
  show ?thesis
    by (simp add: voice_render_def voice_sample_keyed voice_advance_keyed vo)
qed

lemma voice_render_vib:
  "voice_render test_Statics vib_chip vib_SLOT 0 0 = Some (vib_next_SLOT, - 56, - 56)"
proof -
  let ?s = "vib_SLOT\<lparr>offset := 0x2800, PLFO := (PLFO vib_SLOT)\<lparr>phase := 6\<rparr>\<rparr>"
  have eg: "EG_Update test_Statics (?s\<lparr>ALFO := (ALFO vib_SLOT)\<lparr>phase := 6\<rparr>\<rparr>)
      = Some (vib_next_SLOT, 0x3ff)"
    by (subst EG_Update_vib) (simp_all add: vib_next_SLOT_def vib_SLOT_def)
  have vo: "voice_output test_Statics ?s 0 (- 256) 0 0 = Some (vib_next_SLOT, - 56, - 56)"
    by (simp add: voice_output_def vib_Regs vib_ALFO_Step6 eg vib_lookups s32_id)
  show ?thesis
    by (simp add: voice_render_def voice_sample_vib voice_advance_vib vo)
qed

text \<open>
  C3 (as amended).  In a render step of a playing, unmuted voice that returns: when
  \<open>Regs[6] & 7\<close> is not 0 the PLFO phase is advanced by \<open>phase_step\<close> and the PLFO result \<open>p\<close>
  multiplies the step by which \<open>offset\<close> advances; when it is 0 the PLFO is left as it is,
  \<open>offset\<close> advances by the plain step, and the result of the render step does not depend
  on the PLFO at all.  When \<open>Regs[7] & 7\<close> is not 0 the ALFO phase is advanced by
  \<open>phase_step\<close> and the ALFO result \<open>a\<close> multiplies the interpolated sample: what is added to
  the two accumulators is \<open>(LPANTABLE[vol] * s) >> SHIFT\<close> and \<open>(RPANTABLE[vol] * s) >> SHIFT\<close>
  with \<open>s = (((sample * a) >> SHIFT) * g) >> 10\<close>, where \<open>sample\<close> is the interpolated sample
  that \<open>voice_sample\<close> computes, \<open>vol\<close> is \<open>(TL >> SHIFT) | (Pan << 7)\<close>, and \<open>g\<close> is the gain
  that \<open>EG_Update\<close> returns on the voice as the advance of \<open>offset\<close> and of the ALFO leave it.
  When \<open>Regs[7] & 7\<close> is 0 the ALFO is left as it is, \<open>s = (sample * g) >> 10\<close> with the sample
  not multiplied, and the result of the render step does not depend on the ALFO at all.
\<close>

theorem voice_render_LFO_conditional:
  assumes vr: "voice_render S c slot smpl smpr = Some (slot', l, r)"
    and r6: "lookup (Regs slot) 6 = Some r6"
    and r7: "lookup (Regs slot) 7 = Some r7"
    and smp: "Sample_of c slot = Some smp"
  shows
    "(if r6 AND 7 \<noteq> 0
      then \<exists>p. PLFO_Step (PLFO slot) = Some (PLFO slot', p) \<and>
             phase (PLFO slot') = phase (PLFO slot) + ucast (phase_step (PLFO slot)) \<and>
             offset slot' =
               (let ofs = offset slot + drop_bit SHIFT (step slot * word_of_int p)
                in if ofs \<ge> push_bit SHIFT (End smp) then push_bit SHIFT (Loop smp) else ofs)
      else PLFO slot' = PLFO slot \<and>
           offset slot' =
               (let ofs = offset slot + step slot
                in if ofs \<ge> push_bit SHIFT (End smp) then push_bit SHIFT (Loop smp) else ofs) \<and>
           voice_render S c (slot\<lparr>PLFO := x\<rparr>) smpl smpr = Some (slot'\<lparr>PLFO := x\<rparr>, l, r)) \<and>
     (\<exists>vol adr csample sample s1 g lp rp.
        voice_sample c slot = Some (vol, adr, csample, sample) \<and>
        voice_advance c slot adr csample = Some s1 \<and>
        vol = drop_bit SHIFT (TL slot) OR push_bit 7 (Pan slot) \<and>
        lookup (LPANTABLE S) (uint vol) = Some lp \<and>
        lookup (RPANTABLE S) (uint vol) = Some rp \<and>
        (if r7 AND 7 \<noteq> 0
         then \<exists>a. ALFO_Step (ALFO slot) = Some (ALFO slot', a) \<and>
                phase (ALFO slot') = phase (ALFO slot) + ucast (phase_step (ALFO slot)) \<and>
                EG_Update S (s1\<lparr>ALFO := ALFO slot'\<rparr>) = Some (slot', g) \<and>
                l = s32 (smpl + drop_bit SHIFT (s32 (lp * drop_bit 10 (s32 (drop_bit SHIFT (s32 (sample * a)) * g))))) \<and>
                r = s32 (smpr + drop_bit SHIFT (s32 (rp * drop_bit 10 (s32 (drop_bit SHIFT (s32 (sample * a)) * g)))))
         else ALFO slot' = ALFO slot \<and>
              EG_Update S s1 = Some (slot', g) \<and>
              l = s32 (smpl + drop_bit SHIFT (s32 (lp * drop_bit 10 (s32 (sample * g))))) \<and>
              r = s32 (smpr + drop_bit SHIFT (s32 (rp * drop_bit 10 (s32 (sample * g))))) \<and>
              voice_render S c (slot\<lparr>ALFO := y\<rparr>) smpl smpr = Some (slot'\<lparr>ALFO := y\<rparr>, l, r)))"
proof -
  from vr obtain vol adr csample sample s1 where
    vs: "voice_sample c slot = Some (vol, adr, csample, sample)"
    and va: "voice_advance c slot adr csample = Some s1"
    and vo: "voice_output S s1 vol sample smpl smpr = Some (slot', l, r)"
    by (auto simp: voice_render_def split: bind_splits)
  note vol = voice_sample_vol [OF vs]
  note A = voice_advance_PLFO [OF va r6 smp]
  have r7': "lookup (Regs s1) 7 = Some r7" using A r7 by simp
  note B = voice_output_tremolo [OF vo r7', of y]
  from B have B0: "PLFO slot' = PLFO s1" "offset slot' = offset s1" by simp_all
  from B obtain g lp rp where
    lp: "lookup (LPANTABLE S) (uint vol) = Some lp"
    and rp: "lookup (RPANTABLE S) (uint vol) = Some rp"
    and B1: "if r7 AND 7 \<noteq> 0
        then \<exists>a. ALFO_Step (ALFO s1) = Some (ALFO slot', a) \<and>
               EG_Update S (s1\<lparr>ALFO := ALFO slot'\<rparr>) = Some (slot', g) \<and>
               l = s32 (smpl + drop_bit SHIFT (s32 (lp * drop_bit 10 (s32 (drop_bit SHIFT (s32 (sample * a)) * g))))) \<and>
               r = s32 (smpr + drop_bit SHIFT (s32 (rp * drop_bit 10 (s32 (drop_bit SHIFT (s32 (sample * a)) * g)))))
        else ALFO slot' = ALFO s1 \<and>
             EG_Update S s1 = Some (slot', g) \<and>
             l = s32 (smpl + drop_bit SHIFT (s32 (lp * drop_bit 10 (s32 (sample * g))))) \<and>
             r = s32 (smpr + drop_bit SHIFT (s32 (rp * drop_bit 10 (s32 (sample * g))))) \<and>
             voice_output S (s1\<lparr>ALFO := y\<rparr>) vol sample smpl smpr = Some (slot'\<lparr>ALFO := y\<rparr>, l, r)"
    by blast
  have P: "if r6 AND 7 \<noteq> 0
      then \<exists>p. PLFO_Step (PLFO slot) = Some (PLFO slot', p) \<and>
             phase (PLFO slot') = phase (PLFO slot) + ucast (phase_step (PLFO slot)) \<and>
             offset slot' =
               (let ofs = offset slot + drop_bit SHIFT (step slot * word_of_int p)
                in if ofs \<ge> push_bit SHIFT (End smp) then push_bit SHIFT (Loop smp) else ofs)
      else PLFO slot' = PLFO slot \<and>
           offset slot' =
               (let ofs = offset slot + step slot
                in if ofs \<ge> push_bit SHIFT (End smp) then push_bit SHIFT (Loop smp) else ofs) \<and>
           voice_render S c (slot\<lparr>PLFO := x\<rparr>) smpl smpr = Some (slot'\<lparr>PLFO := x\<rparr>, l, r)"
  proof (cases "r6 AND 7 = 0")
    case True
    have "voice_render S c (slot\<lparr>PLFO := x\<rparr>) smpl smpr = Some (slot'\<lparr>PLFO := x\<rparr>, l, r)"
      using vs voice_advance_PLFO_indep [OF va r6 True, of x] voice_output_PLFO_indep [OF vo, of x]
      by (simp add: voice_render_def voice_sample_PLFO_indep)
    then show ?thesis using True A B0 by simp
  next
    case False
    with A obtain p where p: "PLFO_Step (PLFO slot) = Some (PLFO s1, p)"
      "offset s1 =
               (let ofs = offset slot + drop_bit SHIFT (step slot * word_of_int p)
                in if ofs \<ge> push_bit SHIFT (End smp) then push_bit SHIFT (Loop smp) else ofs)"
      by auto
    have "PLFO_Step (PLFO slot) = Some (PLFO slot', p) \<and>
             phase (PLFO slot') = phase (PLFO slot) + ucast (phase_step (PLFO slot)) \<and>
             offset slot' =
               (let ofs = offset slot + drop_bit SHIFT (step slot * word_of_int p)
                in if ofs \<ge> push_bit SHIFT (End smp) then push_bit SHIFT (Loop smp) else ofs)"
      using p B0 PLFO_Step_phase [OF p(1)] by simp
    then have "\<exists>p. PLFO_Step (PLFO slot) = Some (PLFO slot', p) \<and>
             phase (PLFO slot') = phase (PLFO slot) + ucast (phase_step (PLFO slot)) \<and>
             offset slot' =
               (let ofs = offset slot + drop_bit SHIFT (step slot * word_of_int p)
                in if ofs \<ge> push_bit SHIFT (End smp) then push_bit SHIFT (Loop smp) else ofs)"
      by (rule exI)
    then show ?thesis using False by (simp only: if_True simp_thms)
  qed
  have Q: "if r7 AND 7 \<noteq> 0
         then \<exists>a. ALFO_Step (ALFO slot) = Some (ALFO slot', a) \<and>
                phase (ALFO slot') = phase (ALFO slot) + ucast (phase_step (ALFO slot)) \<and>
                EG_Update S (s1\<lparr>ALFO := ALFO slot'\<rparr>) = Some (slot', g) \<and>
                l = s32 (smpl + drop_bit SHIFT (s32 (lp * drop_bit 10 (s32 (drop_bit SHIFT (s32 (sample * a)) * g))))) \<and>
                r = s32 (smpr + drop_bit SHIFT (s32 (rp * drop_bit 10 (s32 (drop_bit SHIFT (s32 (sample * a)) * g)))))
         else ALFO slot' = ALFO slot \<and>
              EG_Update S s1 = Some (slot', g) \<and>
              l = s32 (smpl + drop_bit SHIFT (s32 (lp * drop_bit 10 (s32 (sample * g))))) \<and>
              r = s32 (smpr + drop_bit SHIFT (s32 (rp * drop_bit 10 (s32 (sample * g))))) \<and>
              voice_render S c (slot\<lparr>ALFO := y\<rparr>) smpl smpr = Some (slot'\<lparr>ALFO := y\<rparr>, l, r)"
  proof (cases "r7 AND 7 = 0")
    case True
    with B1 have b: "ALFO slot' = ALFO s1" "EG_Update S s1 = Some (slot', g)"
      "l = s32 (smpl + drop_bit SHIFT (s32 (lp * drop_bit 10 (s32 (sample * g)))))"
      "r = s32 (smpr + drop_bit SHIFT (s32 (rp * drop_bit 10 (s32 (sample * g)))))"
      "voice_output S (s1\<lparr>ALFO := y\<rparr>) vol sample smpl smpr = Some (slot'\<lparr>ALFO := y\<rparr>, l, r)"
      by simp_all
    have "voice_render S c (slot\<lparr>ALFO := y\<rparr>) smpl smpr = Some (slot'\<lparr>ALFO := y\<rparr>, l, r)"
      using vs voice_advance_ALFO_indep [OF va, of y] b(5)
      by (simp add: voice_render_def voice_sample_ALFO_indep)
    then show ?thesis using True A b(1-4) by simp
  next
    case False
    with B1 obtain a where a: "ALFO_Step (ALFO s1) = Some (ALFO slot', a)"
      "EG_Update S (s1\<lparr>ALFO := ALFO slot'\<rparr>) = Some (slot', g)"
      "l = s32 (smpl + drop_bit SHIFT (s32 (lp * drop_bit 10 (s32 (drop_bit SHIFT (s32 (sample * a)) * g)))))"
      "r = s32 (smpr + drop_bit SHIFT (s32 (rp * drop_bit 10 (s32 (drop_bit SHIFT (s32 (sample * a)) * g)))))"
      by auto
    have a1: "ALFO_Step (ALFO slot) = Some (ALFO slot', a)" using a(1) A by simp
    have "ALFO_Step (ALFO slot) = Some (ALFO slot', a) \<and>
                phase (ALFO slot') = phase (ALFO slot) + ucast (phase_step (ALFO slot)) \<and>
                EG_Update S (s1\<lparr>ALFO := ALFO slot'\<rparr>) = Some (slot', g) \<and>
                l = s32 (smpl + drop_bit SHIFT (s32 (lp * drop_bit 10 (s32 (drop_bit SHIFT (s32 (sample * a)) * g))))) \<and>
                r = s32 (smpr + drop_bit SHIFT (s32 (rp * drop_bit 10 (s32 (drop_bit SHIFT (s32 (sample * a)) * g)))))"
      using a1 a(2,3,4) ALFO_Step_phase [OF a1] by simp
    then have "\<exists>a. ALFO_Step (ALFO slot) = Some (ALFO slot', a) \<and>
                phase (ALFO slot') = phase (ALFO slot) + ucast (phase_step (ALFO slot)) \<and>
                EG_Update S (s1\<lparr>ALFO := ALFO slot'\<rparr>) = Some (slot', g) \<and>
                l = s32 (smpl + drop_bit SHIFT (s32 (lp * drop_bit 10 (s32 (drop_bit SHIFT (s32 (sample * a)) * g))))) \<and>
                r = s32 (smpr + drop_bit SHIFT (s32 (rp * drop_bit 10 (s32 (drop_bit SHIFT (s32 (sample * a)) * g)))))"
      by (rule exI)
    then show ?thesis using False by (simp only: if_True simp_thms)
  qed
  from vs va vol lp rp Q have
    "\<exists>vol adr csample sample s1 g lp rp.
        voice_sample c slot = Some (vol, adr, csample, sample) \<and>
        voice_advance c slot adr csample = Some s1 \<and>
        vol = drop_bit SHIFT (TL slot) OR push_bit 7 (Pan slot) \<and>
        lookup (LPANTABLE S) (uint vol) = Some lp \<and>
        lookup (RPANTABLE S) (uint vol) = Some rp \<and>
        (if r7 AND 7 \<noteq> 0
         then \<exists>a. ALFO_Step (ALFO slot) = Some (ALFO slot', a) \<and>
                phase (ALFO slot') = phase (ALFO slot) + ucast (phase_step (ALFO slot)) \<and>
                EG_Update S (s1\<lparr>ALFO := ALFO slot'\<rparr>) = Some (slot', g) \<and>
                l = s32 (smpl + drop_bit SHIFT (s32 (lp * drop_bit 10 (s32 (drop_bit SHIFT (s32 (sample * a)) * g))))) \<and>
                r = s32 (smpr + drop_bit SHIFT (s32 (rp * drop_bit 10 (s32 (drop_bit SHIFT (s32 (sample * a)) * g)))))
         else ALFO slot' = ALFO slot \<and>
              EG_Update S s1 = Some (slot', g) \<and>
              l = s32 (smpl + drop_bit SHIFT (s32 (lp * drop_bit 10 (s32 (sample * g))))) \<and>
              r = s32 (smpr + drop_bit SHIFT (s32 (rp * drop_bit 10 (s32 (sample * g))))) \<and>
              voice_render S c (slot\<lparr>ALFO := y\<rparr>) smpl smpr = Some (slot'\<lparr>ALFO := y\<rparr>, l, r))"
    by blast
  with P show ?thesis by (rule conjI)
qed

lemma Sample_of_lfo: "Sample_of rom_chip lfo_SLOT = Some zero_Sample"
  by (simp add: Sample_of_def lfo_SLOT_def keyed_SLOT_def rom_chip_simps lookup_def)

text \<open>Two instances.  Voice 0 of \<open>vib_chip\<close> on its second rendered sample, both depths 1:
  the PLFO result is \<open>5120\<close> (1.25 in Q12), both phases go from 3 to 6, \<open>offset\<close> advances by
  \<open>(0x1000 * 5120) >> 12\<close>, the interpolated sample \<open>-256\<close> is multiplied by the ALFO result
  \<open>3584\<close> (0.875 in Q12) and then by the gain \<open>0x3ff\<close>, and \<open>-56\<close> is added on both sides.  And
  \<open>lfo_SLOT\<close>, both depths 0: the step is the same whatever the two LFOs hold.\<close>

theorem voice_render_LFO_conditional_witness:
  "voice_render test_Statics vib_chip vib_SLOT 0 0 = Some (vib_next_SLOT, - 56, - 56) \<and>
   lookup (Regs vib_SLOT) 6 = Some 0x09 \<and> lookup (Regs vib_SLOT) 7 = Some 0x01 \<and>
   Sample_of vib_chip vib_SLOT = Some vib_Sample \<and>
   PLFO_Step (PLFO vib_SLOT) = Some (PLFO vib_next_SLOT, 5120) \<and>
   phase (PLFO vib_SLOT) = 3 \<and> phase_step (PLFO vib_SLOT) = 3 \<and> phase (PLFO vib_next_SLOT) = 6 \<and>
   offset vib_SLOT = 0x1400 \<and> step vib_SLOT = 0x1000 \<and>
   offset vib_next_SLOT = 0x1400 + drop_bit SHIFT (0x1000 * 5120) \<and>
   voice_sample vib_chip vib_SLOT = Some (0, 1, - 256, - 256) \<and>
   ALFO_Step (ALFO vib_SLOT) = Some (ALFO vib_next_SLOT, 3584) \<and>
   phase (ALFO vib_SLOT) = 3 \<and> phase_step (ALFO vib_SLOT) = 3 \<and> phase (ALFO vib_next_SLOT) = 6 \<and>
   (\<exists>s1. voice_advance vib_chip vib_SLOT 1 (- 256) = Some s1 \<and>
         EG_Update test_Statics (s1\<lparr>ALFO := ALFO vib_next_SLOT\<rparr>) = Some (vib_next_SLOT, 0x3ff)) \<and>
   lookup (LPANTABLE test_Statics) 0 = Some 1024 \<and>
   lookup (RPANTABLE test_Statics) 0 = Some 1024 \<and>
   (- 56 :: int) = s32 (0 + drop_bit SHIFT (s32 (1024 * drop_bit 10 (s32 (drop_bit SHIFT (s32 (- 256 * 3584)) * 0x3ff))))) \<and>
   voice_render test_Statics rom_chip lfo_SLOT 0 0 = Some (lfo_SLOT, 0, 0) \<and>
   lookup (Regs lfo_SLOT) 6 = Some 0x08 \<and> lookup (Regs lfo_SLOT) 7 = Some 0 \<and>
   Sample_of rom_chip lfo_SLOT = Some zero_Sample \<and>
   voice_render test_Statics rom_chip (lfo_SLOT\<lparr>PLFO := zero_LFO\<rparr>) 0 0
     = Some (lfo_SLOT\<lparr>PLFO := zero_LFO\<rparr>, 0, 0) \<and>
   voice_render test_Statics rom_chip (lfo_SLOT\<lparr>ALFO := zero_LFO\<rparr>) 0 0
     = Some (lfo_SLOT\<lparr>ALFO := zero_LFO\<rparr>, 0, 0)"
proof -
  note T = voice_render_LFO_conditional [OF voice_render_vib vib_Regs(3) vib_Regs(4) Sample_of_vib(2)]
  have v: "voice_render test_Statics rom_chip lfo_SLOT 0 0 = Some (lfo_SLOT, 0, 0)"
    using voice_render_idle [of lfo_SLOT] by simp
  have r: "lookup (Regs lfo_SLOT) 6 = Some 0x08" "lookup (Regs lfo_SLOT) 7 = Some 0"
    by (simp_all add: lfo_SLOT_def lookup_def)
  note U = voice_render_LFO_conditional [OF v r Sample_of_lfo, of zero_LFO zero_LFO]
  have p: "voice_render test_Statics rom_chip (lfo_SLOT\<lparr>PLFO := zero_LFO\<rparr>) 0 0
     = Some (lfo_SLOT\<lparr>PLFO := zero_LFO\<rparr>, 0, 0)"
    using U by simp
  have a: "voice_render test_Statics rom_chip (lfo_SLOT\<lparr>ALFO := zero_LFO\<rparr>) 0 0
     = Some (lfo_SLOT\<lparr>ALFO := zero_LFO\<rparr>, 0, 0)"
    using U by (elim conjE exE) simp
  have f: "phase (PLFO vib_SLOT) = 3" "phase_step (PLFO vib_SLOT) = 3" "phase (PLFO vib_next_SLOT) = 6"
    "phase (ALFO vib_SLOT) = 3" "phase_step (ALFO vib_SLOT) = 3" "phase (ALFO vib_next_SLOT) = 6"
    "offset vib_SLOT = 0x1400" "step vib_SLOT = 0x1000"
    "End vib_Sample = 0xffff" "Loop vib_Sample = 0"
    by (simp_all add: vib_next_SLOT_def vib_SLOT_def vib_keyed_SLOT_def zero_SLOT_def vib_Sample_def)
  from T have t1: "\<exists>p. PLFO_Step (PLFO vib_SLOT) = Some (PLFO vib_next_SLOT, p) \<and>
             phase (PLFO vib_next_SLOT) = phase (PLFO vib_SLOT) + ucast (phase_step (PLFO vib_SLOT)) \<and>
             offset vib_next_SLOT =
               (let ofs = offset vib_SLOT + drop_bit SHIFT (step vib_SLOT * word_of_int p)
                in if ofs \<ge> push_bit SHIFT (End vib_Sample) then push_bit SHIFT (Loop vib_Sample) else ofs)"
    by simp
  then have t1': "PLFO_Step (PLFO vib_SLOT) = Some (PLFO vib_next_SLOT, 5120) \<and>
     offset vib_next_SLOT = 0x1400 + drop_bit SHIFT (0x1000 * 5120)"
    by (auto simp: vib_PLFO_Step6 f)
  from T have t2: "\<exists>vol adr csample sample s1 g lp rp.
        voice_sample vib_chip vib_SLOT = Some (vol, adr, csample, sample) \<and>
        voice_advance vib_chip vib_SLOT adr csample = Some s1 \<and>
        vol = drop_bit SHIFT (TL vib_SLOT) OR push_bit 7 (Pan vib_SLOT) \<and>
        lookup (LPANTABLE test_Statics) (uint vol) = Some lp \<and>
        lookup (RPANTABLE test_Statics) (uint vol) = Some rp \<and>
        (\<exists>a. ALFO_Step (ALFO vib_SLOT) = Some (ALFO vib_next_SLOT, a) \<and>
                phase (ALFO vib_next_SLOT) = phase (ALFO vib_SLOT) + ucast (phase_step (ALFO vib_SLOT)) \<and>
                EG_Update test_Statics (s1\<lparr>ALFO := ALFO vib_next_SLOT\<rparr>) = Some (vib_next_SLOT, g) \<and>
                - 56 = s32 (0 + drop_bit SHIFT (s32 (lp * drop_bit 10 (s32 (drop_bit SHIFT (s32 (sample * a)) * g))))) \<and>
                - 56 = s32 (0 + drop_bit SHIFT (s32 (rp * drop_bit 10 (s32 (drop_bit SHIFT (s32 (sample * a)) * g))))))"
    by simp
  then obtain s1 g where
    t2': "voice_advance vib_chip vib_SLOT 1 (- 256) = Some s1"
      "ALFO_Step (ALFO vib_SLOT) = Some (ALFO vib_next_SLOT, 3584)"
      "EG_Update test_Statics (s1\<lparr>ALFO := ALFO vib_next_SLOT\<rparr>) = Some (vib_next_SLOT, g)"
      "- 56 = s32 (0 + drop_bit SHIFT (s32 (1024 * drop_bit 10 (s32 (drop_bit SHIFT (s32 (- 256 * 3584)) * g)))))"
    by (auto simp: voice_sample_vib vib_ALFO_Step6 vib_lookups)
  have "s1 = vib_SLOT\<lparr>offset := 0x2800, PLFO := (PLFO vib_SLOT)\<lparr>phase := 6\<rparr>\<rparr>"
    using t2'(1) by (simp add: voice_advance_vib)
  then have "EG (s1\<lparr>ALFO := ALFO vib_next_SLOT\<rparr>) = EG vib_SLOT"
    by simp
  then have g: "g = 0x3ff" using t2'(3) by (simp add: EG_Update_vib)
  show ?thesis
    using voice_render_vib vib_Regs Sample_of_vib t1' f voice_sample_vib t2' g vib_lookups v r
      Sample_of_lfo p a
    by simp
qed

text \<open>A playing, unmuted voice with LFO frequency 1 (\<open>phase_step = 3\<close>) and both depths 0:
  the render step returns, and neither phase has advanced.\<close>

theorem voice_render_phase_counterexample:
  "Playing lfo_SLOT \<and> \<not> Muted lfo_SLOT \<and>
   voice_render test_Statics rom_chip lfo_SLOT 0 0 = Some (lfo_SLOT, 0, 0) \<and>
   phase (PLFO lfo_SLOT) \<noteq> phase (PLFO lfo_SLOT) + ucast (phase_step (PLFO lfo_SLOT)) \<and>
   phase (ALFO lfo_SLOT) \<noteq> phase (ALFO lfo_SLOT) + ucast (phase_step (ALFO lfo_SLOT))"
proof -
  have "voice_render test_Statics rom_chip lfo_SLOT 0 0 = Some (lfo_SLOT, 0, 0)"
    using voice_render_idle [of lfo_SLOT] by simp
  then show ?thesis by (simp add: lfo_SLOT_def keyed_SLOT_def zero_SLOT_def)
qed

lemma render_slots_silent:
  "\<forall>slot \<in> set slots. \<not> Playing slot \<or> Muted slot \<Longrightarrow>
   render_slots S c slots smpl smpr = Some (slots, smpl, smpr)"
  by (induction slots) auto

text \<open>\<open>vib_SLOT\<close> is voice 0 of \<open>vib_chip\<close> after \<open>MultiPCM_update\<close> for one sample.\<close>

lemma Slots_vib_chip: "Slots vib_chip = vib_keyed_SLOT # replicate 27 zero_SLOT"
proof -
  have "replicate 28 zero_SLOT = zero_SLOT # replicate 27 zero_SLOT"
    by (simp flip: replicate_Suc)
  then show ?thesis by (simp add: vib_chip_def Slots_test_chip)
qed

lemma vib_update:
  "MultiPCM_update test_Statics vib_chip 1 [7] [7]
     = Some (vib_chip\<lparr>Slots := vib_SLOT # replicate 27 zero_SLOT\<rparr>, [0], [0])"
proof -
  have p: "Playing vib_keyed_SLOT" "\<not> Muted vib_keyed_SLOT"
    by (simp_all add: vib_keyed_SLOT_def zero_SLOT_def)
  have s: "render_slots test_Statics vib_chip (replicate 27 zero_SLOT) 0 0
      = Some (replicate 27 zero_SLOT, 0, 0)"
    by (rule render_slots_silent) (simp add: zero_SLOT_def)
  have "render_slots test_Statics vib_chip (Slots vib_chip) 0 0
      = Some (vib_SLOT # replicate 27 zero_SLOT, 0, 0)"
    by (simp add: Slots_vib_chip p voice_render_keyed s)
  then show ?thesis by (simp add: MultiPCM_update_def)
qed




end
